theory Spec2Isabelle
  imports Complex_Main "HOL-Library.AList" "HOL-Library.Multiset" "HOL-Library.Word"
begin

section \<open>Data model of \<^verbatim>\<open>exact_test.py\<close>\<close>

text \<open>
  Python integers are unbounded and are modelled by \<^typ>\<open>int\<close>.  A Python \<^verbatim>\<open>dict\<close>
  keeps its keys in insertion order, so it is an association list whose store operation is
  \<^const>\<open>AList.update\<close>: an existing key keeps its position, a new key goes to the end.
\<close>

text \<open>
  The values of the statistics are the C \<^verbatim>\<open>double\<close>s returned by the native kernels, read
  as Python floats: a finite number, an infinity, or a NaN.  The program only compares them
  (\<^verbatim>\<open>stat <= actual\<close>, \<^verbatim>\<open>stat >= actual\<close>), stores them and prints them; a comparison
  with a NaN on either side is false.  \<open>Finite\<close> takes any real number, so it covers every
  finite \<^verbatim>\<open>double\<close>.
\<close>

datatype pyfloat = NegInf | Finite real | PosInf | NaN

fun float_le :: "pyfloat \<Rightarrow> pyfloat \<Rightarrow> bool" where
  "float_le NaN y = False"
| "float_le x NaN = False"
| "float_le NegInf y = True"
| "float_le x PosInf = True"
| "float_le (Finite r) (Finite s) = (r \<le> s)"
| "float_le x y = False"

text \<open>\<^verbatim>\<open>x >= y\<close> is \<^verbatim>\<open>y <= x\<close>, also on NaN.\<close>

definition float_ge :: "pyfloat \<Rightarrow> pyfloat \<Rightarrow> bool" where
  "float_ge x y = float_le y x"

text \<open>
  The other floats of the program, \<open>eps\<close>, \<open>log_inner_eps\<close>, the quotients
  \<open>lte_actual / trials\<close> and the levels returned by \<^verbatim>\<open>csm\<close>, and the float fields of a
  \<^verbatim>\<open>Statistic\<close>, are modelled by \<^typ>\<open>real\<close> with exact arithmetic: the rounding of
  binary64 is not modelled.  In particular a positive \<open>eps\<close> stays positive when it is
  divided, where the program's quotient can underflow to zero.
\<close>

record Statistic =
  name :: string
  probability_a_lower :: real
  a_offset :: int
  b_offset :: int
  fn_name :: string
  fn_args :: "real list"

text \<open>
  \<^verbatim>\<open>Result\<close>: the fields \<^verbatim>\<open>m\<close> and \<^verbatim>\<open>n\<close> of the named tuple are called
  \<open>m_size\<close> and \<open>n_size\<close> here.  The judgement of the partial result is \<^verbatim>\<open>None\<close>.
\<close>

record Result =
  actual_value :: pyfloat
  judgement :: "int option"
  m_size :: nat
  n_size :: nat
  num_trials :: int

record Sample =
  a_class :: "int list"
  b_class :: "int list"

record ResultAccumulator =
  trials :: int
  lte_actual :: int
  gte_actual :: int

type_synonym offsets = "int \<times> int"
type_synonym plan = "(real \<times> (offsets \<times> Statistic list) list) list"

section \<open>Grouping statistics in a plan\<close>

text \<open>
  \<^verbatim>\<open>plan[p_a_lower][offsets].append(stat)\<close> on a \<^verbatim>\<open>defaultdict\<close> of
  \<^verbatim>\<open>defaultdict(list)\<close>: a missing key is created with the empty default.
\<close>

definition plan_append :: "plan \<Rightarrow> Statistic \<Rightarrow> plan" where
  "plan_append pl stat =
     (let p_a_lower = probability_a_lower stat;
          offs = (a_offset stat, b_offset stat);
          inner = (case map_of pl p_a_lower of None \<Rightarrow> [] | Some d \<Rightarrow> d);
          bucket = (case map_of inner offs of None \<Rightarrow> [] | Some l \<Rightarrow> l)
      in AList.update p_a_lower (AList.update offs (bucket @ [stat]) inner) pl)"

text \<open>The conversion of the default dictionaries to plain ones copies every entry.\<close>

definition undefaultdict :: "plan \<Rightarrow> plan" where
  "undefaultdict x = map (\<lambda>(k, v). (k, map (\<lambda>(k', v'). (k', v')) v)) x"

definition group_statistics_in_plan :: "Statistic list \<Rightarrow> plan" where
  "group_statistics_in_plan statistics = undefaultdict (foldl plan_append [] statistics)"

text \<open>All the statistics of a plan, bucket after bucket.\<close>

definition plan_statistics :: "plan \<Rightarrow> Statistic list" where
  "plan_statistics pl = concat (map snd (concat (map snd pl)))"

text \<open>The bucket stored under the two keys, empty when a key is missing.\<close>

definition plan_bucket :: "plan \<Rightarrow> real \<Rightarrow> offsets \<Rightarrow> Statistic list" where
  "plan_bucket pl p offs =
     (case map_of pl p of None \<Rightarrow> []
      | Some inner \<Rightarrow> (case map_of inner offs of None \<Rightarrow> [] | Some l \<Rightarrow> l))"

definition stat_key :: "Statistic \<Rightarrow> real \<times> offsets" where
  "stat_key stat = (probability_a_lower stat, (a_offset stat, b_offset stat))"

text \<open>
  A plan is well keyed when no key occurs twice at either level and no bucket is empty.
\<close>

definition plan_keys_ok :: "plan \<Rightarrow> bool" where
  "plan_keys_ok pl =
     (distinct (map fst pl) \<and>
      list_all (\<lambda>(p, inner). inner \<noteq> [] \<and> distinct (map fst inner) \<and>
                  list_all (\<lambda>(offs, bucket). bucket \<noteq> []) inner) pl)"


section \<open>Statistic constructors\<close>

text \<open>The keyword defaults of the source (\<open>0.5\<close>, \<open>0\<close>, \<open>0\<close>) are passed explicitly.\<close>

definition lte_prob :: "string \<Rightarrow> real \<Rightarrow> int \<Rightarrow> int \<Rightarrow> Statistic" where
  "lte_prob nm p_a_lower a_off b_off =
     \<lparr>name = nm, probability_a_lower = p_a_lower, a_offset = a_off, b_offset = b_off,
      fn_name = ''exact_test_lte_prob'', fn_args = []\<rparr>"

definition gt_prob :: "string \<Rightarrow> real \<Rightarrow> int \<Rightarrow> int \<Rightarrow> Statistic" where
  "gt_prob nm p_a_lower a_off b_off =
     \<lparr>name = nm, probability_a_lower = p_a_lower, a_offset = a_off, b_offset = b_off,
      fn_name = ''exact_test_gt_prob'', fn_args = []\<rparr>"

definition mean :: "string \<Rightarrow> real \<Rightarrow> real \<Rightarrow> int \<Rightarrow> int \<Rightarrow> Statistic" where
  "mean nm truncate_tails p_a_lower a_off b_off =
     \<lparr>name = nm, probability_a_lower = p_a_lower, a_offset = a_off, b_offset = b_off,
      fn_name = ''exact_test_truncated_mean_diff'', fn_args = [truncate_tails]\<rparr>"

definition quantile :: "string \<Rightarrow> real \<Rightarrow> real \<Rightarrow> int \<Rightarrow> int \<Rightarrow> Statistic" where
  "quantile nm q p_a_lower a_off b_off =
     \<lparr>name = nm, probability_a_lower = p_a_lower, a_offset = a_off, b_offset = b_off,
      fn_name = ''exact_test_quantile_diff'', fn_args = [q]\<rparr>"

definition median :: "string \<Rightarrow> real \<Rightarrow> int \<Rightarrow> int \<Rightarrow> Statistic" where
  "median nm p_a_lower a_off b_off = quantile nm 0.5 p_a_lower a_off b_off"

definition q99 :: "string \<Rightarrow> real \<Rightarrow> int \<Rightarrow> int \<Rightarrow> Statistic" where
  "q99 nm p_a_lower a_off b_off = quantile nm 0.99 p_a_lower a_off b_off"

section \<open>Errors, native kernels and observable events\<close>

text \<open>
  Every exception the modelled code can raise is a value.  \<open>OverflowError\<close> is what
  \<^verbatim>\<open>cffi\<close> raises when an integer that does not fit \<^verbatim>\<open>uint64_t\<close> is stored in a buffer;
  \<open>ValueError\<close> is what \<^verbatim>\<open>math.log\<close> raises outside its domain.
\<close>

datatype error =
    KeyError string
  | ZeroDivisionError
  | ValueError string
  | OverflowError int
  | TypeError string

text \<open>
  The operand of a \<^verbatim>\<open>raise\<close> statement.  Python 3 accepts only exceptions: raising
  any other object, a string for instance, raises \<^verbatim>\<open>TypeError\<close> in its place.
\<close>

datatype pyobj = PyStr string | PyException error

definition py_raise :: "pyobj \<Rightarrow> error" where
  "py_raise obj =
     (case obj of
        PyStr s \<Rightarrow> TypeError ''exceptions must derive from BaseException''
      | PyException e \<Rightarrow> e)"

fun error_message :: "error \<Rightarrow> string" where
  "error_message (KeyError k) = k"
| "error_message ZeroDivisionError = ''division by zero''"
| "error_message (ValueError s) = s"
| "error_message (OverflowError x) = ''integer does not fit uint64_t''"
| "error_message (TypeError s) = s"

type_synonym buf = "64 word list"

text \<open>
  The native library \<^verbatim>\<open>exact.so\<close> and the module \<^verbatim>\<open>csm\<close> are not part of the
  sources; their functions are parameters.  \<open>'g\<close> is the state of the generator behind the
  \<^verbatim>\<open>xoshiro\<close> handle.  A native function that writes a buffer in place returns the new
  buffer.  \<open>exact_test_shuffle\<close> returns \<open>Inl msg\<close> when the C function returns false and
  leaves \<open>msg\<close> in \<^verbatim>\<open>error_ptr\<close>.  \<open>stat_fn\<close> is \<^verbatim>\<open>getattr(EXACT, fn_name)\<close>.
  \<open>cpu_count\<close> is the value of \<^verbatim>\<open>os.cpu_count()\<close> on the machine of the run, \<open>None\<close>
  when the number of processors is not known.
\<close>

record 'g kernels =
  exact_test_offset_sort :: "'g \<Rightarrow> buf \<Rightarrow> nat \<Rightarrow> nat \<Rightarrow> int \<Rightarrow> int \<Rightarrow> 'g \<times> buf"
  exact_test_shuffle :: "'g \<Rightarrow> buf \<Rightarrow> nat \<Rightarrow> nat \<Rightarrow> real \<Rightarrow> 'g \<times> (string + buf)"
  stat_fn :: "string \<Rightarrow> buf \<Rightarrow> nat \<Rightarrow> nat \<Rightarrow> real list \<Rightarrow> pyfloat"
  csm :: "int \<Rightarrow> real \<Rightarrow> int \<Rightarrow> real \<Rightarrow> bool \<times> real"
  cpu_count :: "int option"

text \<open>
  What a run does besides returning: the calls of the statistic kernels on the actual
  data, the lines printed to the log, the start of the parallel sampler, and the calls of
  \<^verbatim>\<open>_significance_test\<close> (name, \<open>lte_actual\<close>, \<open>gte_actual\<close>, \<open>trials\<close>) and of
  \<^verbatim>\<open>csm\<close> (\<open>trials\<close>, \<open>eps\<close>, successes, \<open>log_inner_eps\<close>).  A printed line is kept
  as the tuple of values that is formatted.
\<close>

datatype log_line =
    ActualLine "(string \<times> pyfloat) list"
  | TestLine int string int int real pyfloat pyfloat

datatype event =
    KernelCall string
  | Print log_line
  | SpawnWorkers
  | TestCall string int int int
  | CsmCall int real int real

section \<open>Statistics of the actual data\<close>

text \<open>\<^verbatim>\<open>_make_buf\<close>: the observations are stored one by one in a \<^verbatim>\<open>uint64_t[]\<close>.\<close>

fun make_buf :: "int list \<Rightarrow> error + buf" where
  "make_buf [] = Inr []"
| "make_buf (x # xs) =
     (if x < 0 \<or> 2 ^ 64 \<le> x then Inl (OverflowError x)
      else (case make_buf xs of Inl e \<Rightarrow> Inl e | Inr ws \<Rightarrow> Inr (word_of_int x # ws)))"

definition actual_data_results ::
  "'g kernels \<Rightarrow> 'g \<Rightarrow> Sample \<Rightarrow> Statistic list \<Rightarrow> event list \<times> (error + (string \<times> pyfloat) list)"
where
  "actual_data_results K xoshiro sample statistics =
     (let a = a_class sample; b = b_class sample; m = length a; n = length b
      in case make_buf (a @ b) of
           Inl e \<Rightarrow> ([], Inl e)
         | Inr buf \<Rightarrow>
             (let copy = snd (exact_test_offset_sort K xoshiro buf m n 0 0)
              in (map (\<lambda>stat. KernelCall (fn_name stat)) statistics,
                  Inr (foldl (\<lambda>results stat.
                         AList.update (name stat)
                           (stat_fn K (fn_name stat) copy m n (fn_args stat)) results)
                       [] statistics))))"

section \<open>The permutation kernel\<close>

fun compute_offsets ::
  "'g kernels \<Rightarrow> 'g \<Rightarrow> buf \<Rightarrow> nat \<Rightarrow> nat \<Rightarrow> (offsets \<times> Statistic list) list \<Rightarrow>
   (string \<times> pyfloat) list \<Rightarrow> 'g \<times> (string \<times> pyfloat) list"
where
  "compute_offsets K g shuffled_buf m n [] results = (g, results)"
| "compute_offsets K g shuffled_buf m n (((a_off, b_off), stats_for_offset) # rest) results =
     (let (g', sorted_buf) = exact_test_offset_sort K g shuffled_buf m n a_off b_off
      in compute_offsets K g' shuffled_buf m n rest
           (foldl (\<lambda>res stat.
              AList.update (name stat) (stat_fn K (fn_name stat) sorted_buf m n (fn_args stat)) res)
            results stats_for_offset))"

fun compute_plan ::
  "'g kernels \<Rightarrow> 'g \<Rightarrow> buf \<Rightarrow> nat \<Rightarrow> nat \<Rightarrow> plan \<Rightarrow> (string \<times> pyfloat) list \<Rightarrow>
   'g \<times> (error + (string \<times> pyfloat) list)"
where
  "compute_plan K g buf m n [] results = (g, Inr results)"
| "compute_plan K g buf m n ((p_a_lt, stats_for_p) # rest) results =
     (case exact_test_shuffle K g buf m n p_a_lt of
        (g', Inl msg) \<Rightarrow> (g', Inl (py_raise (PyStr (''Shuffle failed: '' @ msg))))
      | (g', Inr shuffled_buf) \<Rightarrow>
          (let (g'', results') = compute_offsets K g' shuffled_buf m n stats_for_p results
           in compute_plan K g'' buf m n rest results'))"

definition compute_results ::
  "'g kernels \<Rightarrow> 'g \<Rightarrow> buf \<Rightarrow> nat \<Rightarrow> nat \<Rightarrow> plan \<Rightarrow> 'g \<times> (error + (string \<times> pyfloat) list)"
where
  "compute_results K g buf m n grouped_statistics = compute_plan K g buf m n grouped_statistics []"

text \<open>
  \<^verbatim>\<open>_resampled_data_results_1\<close> yields \<open>compute_results ()\<close> for ever; the first
  \<open>k\<close> values of the generator, or the error that ends it, are computed here.
\<close>

fun yield_results ::
  "'g kernels \<Rightarrow> 'g \<Rightarrow> buf \<Rightarrow> nat \<Rightarrow> nat \<Rightarrow> plan \<Rightarrow> nat \<Rightarrow> error + (string \<times> pyfloat) list list"
where
  "yield_results K g buf m n grouped_statistics 0 = Inr []"
| "yield_results K g buf m n grouped_statistics (Suc k) =
     (case compute_results K g buf m n grouped_statistics of
        (g', Inl e) \<Rightarrow> Inl e
      | (g', Inr results) \<Rightarrow>
          (case yield_results K g' buf m n grouped_statistics k of
             Inl e \<Rightarrow> Inl e
           | Inr later \<Rightarrow> Inr (results # later)))"

definition resampled_data_results_1 ::
  "'g kernels \<Rightarrow> 'g \<Rightarrow> Sample \<Rightarrow> plan \<Rightarrow> nat \<Rightarrow> error + (string \<times> pyfloat) list list"
where
  "resampled_data_results_1 K xoshiro sample grouped_statistics k =
     (let a = a_class sample; b = b_class sample
      in case make_buf (a @ b) of
           Inl e \<Rightarrow> Inl e
         | Inr buf \<Rightarrow> yield_results K xoshiro buf (length a) (length b) grouped_statistics k)"


section \<open>The significance test\<close>

text \<open>
  \<open>lte_actual / trials\<close> is Python's true division of two integers; it raises
  \<open>ZeroDivisionError\<close> when \<open>trials\<close> is zero.  The result dictionary \<open>r\<close> is updated
  in place by the source and returned by the model.
\<close>

definition significance_test ::
  "(int \<Rightarrow> real \<Rightarrow> int \<Rightarrow> real \<Rightarrow> bool \<times> real) \<Rightarrow> (string \<times> Result) list \<Rightarrow> real \<Rightarrow> real \<Rightarrow>
   string \<Rightarrow> pyfloat \<Rightarrow> Sample \<Rightarrow> pyfloat \<Rightarrow> int \<Rightarrow> int \<Rightarrow> int \<Rightarrow> 'l option \<Rightarrow>
   event list \<times> (error + (string \<times> Result) list)"
where
  "significance_test csm_fn r eps log_inner_eps nm monte_carlo_value actual_data actual
       lte gte tr log_sink =
     (let (lt_significant, lt_level) = csm_fn tr eps lte log_inner_eps;
          (gt_significant, gt_level) = csm_fn tr eps gte log_inner_eps;
          printed = (case log_sink of
                       None \<Rightarrow> []
                     | Some sink \<Rightarrow>
                         [Print (TestLine tr nm lte gte (max lt_level gt_level)
                                   monte_carlo_value actual)]);
          partial_result = \<lparr>actual_value = actual, judgement = None,
                            m_size = length (a_class actual_data),
                            n_size = length (b_class actual_data), num_trials = tr\<rparr>;
          finish = (\<lambda>count_in_middle :: int.
                      if count_in_middle = 2
                      then Inr (AList.update nm (partial_result\<lparr>judgement := Some 0\<rparr>) r)
                      else Inr r);
          gt_side = (\<lambda>count_in_middle :: int.
                      if gt_significant
                      then (if tr = 0 then Inl ZeroDivisionError
                            else if real_of_int gte / real_of_int tr < eps
                            then Inr (AList.update nm (partial_result\<lparr>judgement := Some 1\<rparr>) r)
                            else finish (count_in_middle + 1))
                      else finish count_in_middle)
      in ([CsmCall tr eps lte log_inner_eps, CsmCall tr eps gte log_inner_eps] @ printed,
          if lt_significant
          then (if tr = 0 then Inl ZeroDivisionError
                else if real_of_int lte / real_of_int tr < eps
                then Inr (AList.update nm (partial_result\<lparr>judgement := Some (- 1)\<rparr>) r)
                else gt_side (0 + 1))
          else gt_side 0))"

text \<open>
  The same test with the high side examined before the low side.  It is not part of the
  program: it is the comparison object for the question whether the order of the two
  sides matters.
\<close>

definition significance_test_gt_first ::
  "(int \<Rightarrow> real \<Rightarrow> int \<Rightarrow> real \<Rightarrow> bool \<times> real) \<Rightarrow> (string \<times> Result) list \<Rightarrow> real \<Rightarrow> real \<Rightarrow>
   string \<Rightarrow> pyfloat \<Rightarrow> Sample \<Rightarrow> pyfloat \<Rightarrow> int \<Rightarrow> int \<Rightarrow> int \<Rightarrow> 'l option \<Rightarrow>
   event list \<times> (error + (string \<times> Result) list)"
where
  "significance_test_gt_first csm_fn r eps log_inner_eps nm monte_carlo_value actual_data actual
       lte gte tr log_sink =
     (let (lt_significant, lt_level) = csm_fn tr eps lte log_inner_eps;
          (gt_significant, gt_level) = csm_fn tr eps gte log_inner_eps;
          printed = (case log_sink of
                       None \<Rightarrow> []
                     | Some sink \<Rightarrow>
                         [Print (TestLine tr nm lte gte (max lt_level gt_level)
                                   monte_carlo_value actual)]);
          partial_result = \<lparr>actual_value = actual, judgement = None,
                            m_size = length (a_class actual_data),
                            n_size = length (b_class actual_data), num_trials = tr\<rparr>;
          finish = (\<lambda>count_in_middle :: int.
                      if count_in_middle = 2
                      then Inr (AList.update nm (partial_result\<lparr>judgement := Some 0\<rparr>) r)
                      else Inr r);
          lt_side = (\<lambda>count_in_middle :: int.
                      if lt_significant
                      then (if tr = 0 then Inl ZeroDivisionError
                            else if real_of_int lte / real_of_int tr < eps
                            then Inr (AList.update nm (partial_result\<lparr>judgement := Some (- 1)\<rparr>) r)
                            else finish (count_in_middle + 1))
                      else finish count_in_middle)
      in ([CsmCall tr eps lte log_inner_eps, CsmCall tr eps gte log_inner_eps] @ printed,
          if gt_significant
          then (if tr = 0 then Inl ZeroDivisionError
                else if real_of_int gte / real_of_int tr < eps
                then Inr (AList.update nm (partial_result\<lparr>judgement := Some 1\<rparr>) r)
                else lt_side (0 + 1))
          else lt_side 0))"

section \<open>The decision loop of \<^verbatim>\<open>exact_test\<close>\<close>

record loop_state =
  accumulators :: "(string \<times> ResultAccumulator) list"
  ret :: "(string \<times> Result) list"
  seen :: int
  test_every :: int

text \<open>
  A run over a finite prefix of the sample stream fails, returns the result dictionary,
  or is still waiting for the next sample in some state.
\<close>

datatype outcome =
    Failed error
  | Returned "(string \<times> Result) list"
  | Pending loop_state

text \<open>The update of one accumulator by one resampled value.\<close>

definition accumulate :: "pyfloat \<Rightarrow> pyfloat \<Rightarrow> ResultAccumulator \<Rightarrow> ResultAccumulator" where
  "accumulate stat actual current =
     (let current1 = (if float_le stat actual
                      then current\<lparr>lte_actual := lte_actual current + 1\<rparr> else current);
          current2 = (if float_ge stat actual
                      then current1\<lparr>gte_actual := gte_actual current1 + 1\<rparr> else current1)
      in current2\<lparr>trials := trials current2 + 1\<rparr>)"

text \<open>\<^verbatim>\<open>for name, stat in sample.items()\<close>; a missing key raises \<open>KeyError\<close>.\<close>

fun update_accumulators ::
  "(string \<times> pyfloat) list \<Rightarrow> (string \<times> ResultAccumulator) list \<Rightarrow> (string \<times> pyfloat) list \<Rightarrow>
   error + (string \<times> ResultAccumulator) list"
where
  "update_accumulators actual_stats accs [] = Inr accs"
| "update_accumulators actual_stats accs ((nm, stat) # rest) =
     (case map_of actual_stats nm of
        None \<Rightarrow> Inl (KeyError nm)
      | Some actual \<Rightarrow>
          (case map_of accs nm of
             None \<Rightarrow> Inl (KeyError nm)
           | Some current \<Rightarrow>
               update_accumulators actual_stats
                 (AList.update nm (accumulate stat actual current) accs) rest))"

text \<open>
  \<^verbatim>\<open>for name, acc in accumulators.items()\<close>: the statistics that have a result are
  skipped, the others are tested with the value of the latest sample.
\<close>

fun test_accumulators ::
  "(int \<Rightarrow> real \<Rightarrow> int \<Rightarrow> real \<Rightarrow> bool \<times> real) \<Rightarrow> real \<Rightarrow> real \<Rightarrow> (string \<times> pyfloat) list \<Rightarrow> Sample \<Rightarrow>
   (string \<times> pyfloat) list \<Rightarrow> 'l option \<Rightarrow> (string \<times> ResultAccumulator) list \<Rightarrow>
   (string \<times> Result) list \<Rightarrow> event list \<times> (error + (string \<times> Result) list)"
where
  "test_accumulators csm_fn eps log_inner_eps sample actual_data actual_stats log_sink [] r =
     ([], Inr r)"
| "test_accumulators csm_fn eps log_inner_eps sample actual_data actual_stats log_sink
       ((nm, acc) # rest) r =
     (case map_of r nm of
        Some res \<Rightarrow>
          test_accumulators csm_fn eps log_inner_eps sample actual_data actual_stats log_sink rest r
      | None \<Rightarrow>
          (case map_of sample nm of
             None \<Rightarrow> ([], Inl (KeyError nm))
           | Some monte_carlo_value \<Rightarrow>
               (case map_of actual_stats nm of
                  None \<Rightarrow> ([], Inl (KeyError nm))
                | Some actual \<Rightarrow>
                    (case significance_test csm_fn r eps log_inner_eps nm monte_carlo_value
                            actual_data actual (lte_actual acc) (gte_actual acc) (trials acc) log_sink of
                       (evs, Inl e) \<Rightarrow>
                         (TestCall nm (lte_actual acc) (gte_actual acc) (trials acc) # evs, Inl e)
                     | (evs, Inr r') \<Rightarrow>
                         (case test_accumulators csm_fn eps log_inner_eps sample actual_data
                                 actual_stats log_sink rest r' of
                            (evs', res) \<Rightarrow>
                              (TestCall nm (lte_actual acc) (gte_actual acc) (trials acc)
                                 # evs @ evs', res))))))"

text \<open>
  \<^verbatim>\<open>{name: ret[name] for name in actual_stats}\<close>; the keys of a dictionary are
  distinct, so every entry is new.
\<close>

fun collect_results :: "(string \<times> Result) list \<Rightarrow> string list \<Rightarrow> error + (string \<times> Result) list" where
  "collect_results r [] = Inr []"
| "collect_results r (nm # nms) =
     (case map_of r nm of
        None \<Rightarrow> Inl (KeyError nm)
      | Some res \<Rightarrow>
          (case collect_results r nms of
             Inl e \<Rightarrow> Inl e
           | Inr out \<Rightarrow> Inr ((nm, res) # out)))"

text \<open>The body of the loop over the resampled values, for one sample.\<close>

definition consume_sample ::
  "(int \<Rightarrow> real \<Rightarrow> int \<Rightarrow> real \<Rightarrow> bool \<times> real) \<Rightarrow> real \<Rightarrow> real \<Rightarrow> Sample \<Rightarrow> (string \<times> pyfloat) list \<Rightarrow>
   'l option \<Rightarrow> loop_state \<Rightarrow> (string \<times> pyfloat) list \<Rightarrow> event list \<times> outcome"
where
  "consume_sample csm_fn eps log_inner_eps actual_data actual_stats log_sink st sample =
     (case update_accumulators actual_stats (accumulators st) sample of
        Inl e \<Rightarrow> ([], Failed e)
      | Inr accs \<Rightarrow>
          (let seen' = seen st + 1
           in if seen' mod test_every st \<noteq> 0
              then ([], Pending (st\<lparr>accumulators := accs, seen := seen'\<rparr>))
              else
                (let test_every' = (if seen' \<ge> 40 * test_every st
                                    then test_every st * 10 else test_every st)
                 in case test_accumulators csm_fn eps log_inner_eps sample actual_data
                           actual_stats log_sink accs (ret st) of
                      (evs, Inl e) \<Rightarrow> (evs, Failed e)
                    | (evs, Inr r) \<Rightarrow>
                        (if length r = length actual_stats
                         then (case collect_results r (map fst actual_stats) of
                                 Inl e \<Rightarrow> (evs, Failed e)
                               | Inr out \<Rightarrow> (evs, Returned out))
                         else (evs, Pending \<lparr>accumulators = accs, ret = r, seen = seen',
                                              test_every = test_every'\<rparr>)))))"

fun exact_test_loop ::
  "(int \<Rightarrow> real \<Rightarrow> int \<Rightarrow> real \<Rightarrow> bool \<times> real) \<Rightarrow> real \<Rightarrow> real \<Rightarrow> Sample \<Rightarrow> (string \<times> pyfloat) list \<Rightarrow>
   'l option \<Rightarrow> loop_state \<Rightarrow> (string \<times> pyfloat) list list \<Rightarrow> event list \<times> outcome"
where
  "exact_test_loop csm_fn eps log_inner_eps actual_data actual_stats log_sink st [] = ([], Pending st)"
| "exact_test_loop csm_fn eps log_inner_eps actual_data actual_stats log_sink st (sample # samples) =
     (case consume_sample csm_fn eps log_inner_eps actual_data actual_stats log_sink st sample of
        (evs, Pending st') \<Rightarrow>
          (case exact_test_loop csm_fn eps log_inner_eps actual_data actual_stats log_sink st' samples of
             (evs', out) \<Rightarrow> (evs @ evs', out))
      | (evs, Failed e) \<Rightarrow> (evs, Failed e)
      | (evs, Returned out) \<Rightarrow> (evs, Returned out))"

text \<open>
  The state in which the loop starts: an accumulator at zero for every name of
  \<open>actual_stats\<close>, no result, no sample seen, a test after every 250 samples.
\<close>

definition initial_state :: "(string \<times> pyfloat) list \<Rightarrow> loop_state" where
  "initial_state actual_stats =
     \<lparr>accumulators = foldl (\<lambda>d stat_name.
                         AList.update stat_name
                           \<lparr>trials = 0, lte_actual = 0, gte_actual = 0\<rparr> d)
                       [] (map fst actual_stats),
      ret = [], seen = 0, test_every = 250\<rparr>"

subsection \<open>The start of the parallel generator\<close>

text \<open>
  The batch size of \<^verbatim>\<open>_generate_in_parallel\<close> when the caller gives none, as
  \<^verbatim>\<open>exact_test\<close> does; it is never assigned again.
\<close>

definition default_batch_size :: "int \<Rightarrow> int" where
  "default_batch_size ncpu = 10 * ncpu"

text \<open>
  The start of \<^verbatim>\<open>_generate_in_parallel\<close> of \<^verbatim>\<open>exact_test.py\<close>, which runs when the
  loop of \<^verbatim>\<open>exact_test\<close> asks for the first value: \<^verbatim>\<open>4 * ncpu\<close> raises
  \<open>TypeError\<close> when \<^verbatim>\<open>os.cpu_count()\<close> is \<^verbatim>\<open>None\<close>, and \<^verbatim>\<open>Pool(ncpu - 1)\<close>
  raises \<open>ValueError\<close> when it is asked for less than one process.  Otherwise the batch
  size is the default one and the first work units are submitted.
\<close>

definition generate_in_parallel_setup :: "int option \<Rightarrow> error + int" where
  "generate_in_parallel_setup ncpu =
     (case ncpu of
        None \<Rightarrow> Inl (TypeError ''unsupported operand type(s) for *: int and NoneType'')
      | Some n \<Rightarrow>
          (if n - 1 < 1 then Inl (ValueError ''Number of processes must be at least 1'')
           else Inr (default_batch_size n)))"

text \<open>
  The first work units, each with the \<open>initial_batch_size\<close>, \<open>max_batch_size\<close> and
  \<open>return_after\<close> that its worker is given: \<^verbatim>\<open>add_work_unit(0)\<close> for every
  processor, then \<^verbatim>\<open>add_work_unit()\<close> twice, with the defaults
  \<^verbatim>\<open>initial_batch_size=batch_size\<close> and \<^verbatim>\<open>return_after=2 * batch_size\<close>.
\<close>

definition initial_work_units :: "int \<Rightarrow> int \<Rightarrow> (int \<times> int \<times> int) list" where
  "initial_work_units batch_size ncpu =
     replicate (nat ncpu) (0, batch_size, 2 * batch_size)
     @ replicate 2 (batch_size, batch_size, 2 * batch_size)"

subsection \<open>The whole function\<close>

text \<open>
  \<^verbatim>\<open>exact_test\<close>.  \<open>xoshiro\<close> is the generator created for the sort of the actual
  data, \<open>samples\<close> the values that the parallel sampler delivers, in the order of their
  delivery; the loop reads them one after the other.  \<^verbatim>\<open>math.log\<close> raises
  \<open>ValueError\<close> when its argument is not positive.  The two divisions of \<open>eps\<close> are
  exact here: where the program's quotient underflows to zero, \<^verbatim>\<open>math.log\<close> raises as
  it does for \<open>eps \<le> 0\<close>, a failure that the model does not have.
\<close>

definition exact_test ::
  "'g kernels \<Rightarrow> 'g \<Rightarrow> (string \<times> pyfloat) list list \<Rightarrow> int list \<Rightarrow> int list \<Rightarrow> Statistic list \<Rightarrow>
   real \<Rightarrow> 'l option \<Rightarrow> event list \<times> outcome"
where
  "exact_test K xoshiro samples a b statistics eps log_sink =
     (if statistics = [] then ([], Returned [])
      else
        (let actual_data = \<lparr>a_class = a, b_class = b\<rparr>;
             num_stats = length statistics;
             eps' = eps / (2 * real num_stats * 1.1)
         in if eps' / 10 \<le> 0 then ([], Failed (ValueError ''math domain error''))
            else
              (let log_inner_eps = ln (eps' / 10)
               in case actual_data_results K xoshiro actual_data statistics of
                    (evs0, Inl e) \<Rightarrow> (evs0, Failed e)
                  | (evs0, Inr actual_stats) \<Rightarrow>
                      (let printed = (case log_sink of
                                        None \<Rightarrow> []
                                      | Some sink \<Rightarrow> [Print (ActualLine actual_stats)])
                       in case generate_in_parallel_setup (cpu_count K) of
                            Inl e \<Rightarrow> (evs0 @ printed, Failed e)
                          | Inr batch_size \<Rightarrow>
                              (case exact_test_loop (csm K) eps' log_inner_eps actual_data
                                      actual_stats log_sink (initial_state actual_stats) samples of
                                 (evs, out) \<Rightarrow> (evs0 @ printed @ [SpawnWorkers] @ evs, out))))))"

section \<open>The parallel generators\<close>

subsection \<open>\<^verbatim>\<open>exact_test_sampler.py\<close>\<close>

definition INITIAL_BATCH_SIZE :: int where
  "INITIAL_BATCH_SIZE = 10"

definition MAX_BATCH_SIZE :: int where
  "MAX_BATCH_SIZE = 100 * 1000"

definition BATCH_SIZE_GROWTH_FACTOR :: int where
  "BATCH_SIZE_GROWTH_FACTOR = 2"

text \<open>
  The state of \<^verbatim>\<open>_generate_in_parallel\<close> that the batch size depends on, and the values
  it has yielded.  One turn of its main loop yields the locally generated \<open>v\<close>, then
  the values of the futures found completed by \<^verbatim>\<open>consume_completed_futures\<close> (one list
  of values for each), and grows the batch size when there was any.
\<close>

record 'v sampler_state =
  batch_size :: int
  yielded :: "'v list"

definition sampler_turn :: "'v sampler_state \<Rightarrow> 'v \<times> 'v list list \<Rightarrow> 'v sampler_state" where
  "sampler_turn st turn =
     (case turn of
        (v, completed) \<Rightarrow>
          (let any_completed = (completed \<noteq> [])
           in \<lparr>batch_size = (if any_completed
                             then min (BATCH_SIZE_GROWTH_FACTOR * batch_size st) MAX_BATCH_SIZE
                             else batch_size st),
               yielded = yielded st @ [v] @ concat completed\<rparr>))"

definition sampler_generate_in_parallel :: "('v \<times> 'v list list) list \<Rightarrow> 'v sampler_state" where
  "sampler_generate_in_parallel turns =
     foldl sampler_turn \<lparr>batch_size = INITIAL_BATCH_SIZE, yielded = []\<rparr> turns"

subsection \<open>\<^verbatim>\<open>exact_test.py\<close>\<close>

text \<open>
  \<^verbatim>\<open>_generate_in_parallel_worker\<close> on the values \<open>vs\<close> of its generator: the batches
  put on the queue, and the batch size it ends with.  The state of its loop is the
  current batch, the batch size and the number of values delivered.
\<close>

fun worker_loop ::
  "'v list \<Rightarrow> 'v list \<Rightarrow> int \<Rightarrow> int \<Rightarrow> int \<Rightarrow> int \<Rightarrow> 'v list list \<Rightarrow> 'v list list \<times> int"
where
  "worker_loop [] batch bsize delivered max_batch_size return_after queue = (queue, bsize)"
| "worker_loop (v # vs) batch bsize delivered max_batch_size return_after queue =
     (let batch' = batch @ [v]
      in if int (length batch') \<ge> bsize
         then (let delivered' = delivered + int (length batch');
                   queue' = queue @ [batch']
               in if delivered' \<ge> return_after then (queue', bsize)
                  else worker_loop vs []
                         (if bsize < max_batch_size then bsize + 1 else bsize)
                         delivered' max_batch_size return_after queue')
         else worker_loop vs batch' bsize delivered max_batch_size return_after queue)"

definition generate_in_parallel_worker ::
  "'v list \<Rightarrow> int \<Rightarrow> int \<Rightarrow> int \<Rightarrow> 'v list list \<times> int"
where
  "generate_in_parallel_worker vs initial_batch_size max_batch_size return_after =
     worker_loop vs [] initial_batch_size 0 max_batch_size return_after []"


section \<open>Observations on runs\<close>

text \<open>The calls of \<^verbatim>\<open>csm\<close> and of \<^verbatim>\<open>_significance_test\<close> recorded in a run.\<close>

fun csm_calls :: "event list \<Rightarrow> (int \<times> real \<times> int \<times> real) list" where
  "csm_calls [] = []"
| "csm_calls (CsmCall tr e s l # evs) = (tr, e, s, l) # csm_calls evs"
| "csm_calls (ev # evs) = csm_calls evs"

fun test_calls :: "event list \<Rightarrow> (string \<times> int \<times> int \<times> int) list" where
  "test_calls [] = []"
| "test_calls (TestCall nm lte gte tr # evs) = (nm, lte, gte, tr) # test_calls evs"
| "test_calls (ev # evs) = test_calls evs"

text \<open>The \<open>eps\<close> and \<open>log_inner_eps\<close> arguments of a call of \<^verbatim>\<open>csm\<close>.\<close>

definition csm_args_are :: "real \<Rightarrow> real \<Rightarrow> int \<times> real \<times> int \<times> real \<Rightarrow> bool" where
  "csm_args_are eps lie c = (case c of (tr, e, s, l) \<Rightarrow> e = eps \<and> l = lie)"

text \<open>A run without the lines it printed.\<close>

fun unlogged :: "event list \<Rightarrow> event list" where
  "unlogged [] = []"
| "unlogged (Print line # evs) = unlogged evs"
| "unlogged (ev # evs) = ev # unlogged evs"

text \<open>
  Kernels for concrete runs: the sort and the shuffle leave the buffer as it is, every
  statistic is \<open>0\<close>, \<^verbatim>\<open>csm\<close> always reports significance, and the machine has four
  processors.
\<close>

definition example_kernels :: "unit kernels" where
  "example_kernels =
     \<lparr>exact_test_offset_sort = (\<lambda>g b m n a_off b_off. (g, b)),
      exact_test_shuffle = (\<lambda>g b m n p. (g, Inr b)),
      stat_fn = (\<lambda>f b m n args. Finite 0),
      csm = (\<lambda>tr e s l. (True, 0)),
      cpu_count = Some 4\<rparr>"

subsection \<open>Predicates on accumulators, results and outcomes\<close>

text \<open>
  The bounds on the three counters of an accumulator: each tail count lies between zero
  and the number of trials (\<open>acc_bounds\<close>) and, in \<open>acc_ok\<close>, the two tails together
  cover the trials.
\<close>

definition acc_bounds :: "ResultAccumulator \<Rightarrow> bool" where
  "acc_bounds acc =
     (0 \<le> lte_actual acc \<and> lte_actual acc \<le> trials acc \<and>
      0 \<le> gte_actual acc \<and> gte_actual acc \<le> trials acc)"

definition acc_ok :: "ResultAccumulator \<Rightarrow> bool" where
  "acc_ok acc = (acc_bounds acc \<and> trials acc \<le> lte_actual acc + gte_actual acc)"

text \<open>No counter of the first accumulator exceeds that of the second.\<close>

definition acc_le :: "ResultAccumulator \<Rightarrow> ResultAccumulator \<Rightarrow> bool" where
  "acc_le acc acc' =
     (trials acc \<le> trials acc' \<and> lte_actual acc \<le> lte_actual acc' \<and>
      gte_actual acc \<le> gte_actual acc')"

text \<open>A result with a judgement in \<open>{-1, 0, +1}\<close> and a positive number of trials.\<close>

definition res_ok :: "Result \<Rightarrow> bool" where
  "res_ok res =
     ((judgement res = Some (- 1) \<or> judgement res = Some 0 \<or> judgement res = Some 1) \<and>
      0 < num_trials res)"

text \<open>
  The counts passed to one call of \<^verbatim>\<open>_significance_test\<close>: \<open>trials > 0\<close> and each
  tail count between zero and \<open>trials\<close> (\<open>test_call_bounds\<close>) and, in \<open>test_call_ok\<close>,
  the two tails together cover the trials.
\<close>

definition test_call_bounds :: "string \<times> int \<times> int \<times> int \<Rightarrow> bool" where
  "test_call_bounds c =
     (case c of (nm, lte, gte, tr) \<Rightarrow>
        0 < tr \<and> 0 \<le> lte \<and> lte \<le> tr \<and> 0 \<le> gte \<and> gte \<le> tr)"

definition test_call_ok :: "string \<times> int \<times> int \<times> int \<Rightarrow> bool" where
  "test_call_ok c =
     (test_call_bounds c \<and> (case c of (nm, lte, gte, tr) \<Rightarrow> tr \<le> lte + gte))"

text \<open>
  A dictionary of statistic values without NaN, and the same for the values of the
  statistics on the actual data, when they can be computed.
\<close>

definition nan_free :: "(string \<times> pyfloat) list \<Rightarrow> bool" where
  "nan_free d = list_all (\<lambda>p. snd p \<noteq> NaN) d"

definition actual_nan_free :: "'g kernels \<Rightarrow> 'g \<Rightarrow> int list \<Rightarrow> int list \<Rightarrow> Statistic list \<Rightarrow> bool" where
  "actual_nan_free K xoshiro a b statistics =
     (case snd (actual_data_results K xoshiro \<lparr>a_class = a, b_class = b\<rparr> statistics) of
        Inl e \<Rightarrow> True
      | Inr actual_stats \<Rightarrow> nan_free actual_stats)"

text \<open>
  The two forms of the bounds in one: \<open>acc_inv True\<close> is \<open>acc_ok\<close> and \<open>acc_inv False\<close>
  is \<open>acc_bounds\<close>; the flag says whether the values are known to be free of NaN.
\<close>

definition acc_inv :: "bool \<Rightarrow> ResultAccumulator \<Rightarrow> bool" where
  "acc_inv nf acc = (if nf then acc_ok acc else acc_bounds acc)"

definition test_call_inv :: "bool \<Rightarrow> string \<times> int \<times> int \<times> int \<Rightarrow> bool" where
  "test_call_inv nf c = (if nf then test_call_ok c else test_call_bounds c)"

text \<open>
  The result dictionary and the accumulators that a run has where it stands; a failed run
  has neither, and the accumulators of a run that returned are gone with its frame.
\<close>

fun outcome_ret :: "outcome \<Rightarrow> (string \<times> Result) list" where
  "outcome_ret (Returned out) = out"
| "outcome_ret (Pending st) = ret st"
| "outcome_ret (Failed e) = []"

fun outcome_accumulators :: "outcome \<Rightarrow> (string \<times> ResultAccumulator) list" where
  "outcome_accumulators (Pending st) = accumulators st"
| "outcome_accumulators (Returned out) = []"
| "outcome_accumulators (Failed e) = []"

fun is_failed :: "outcome \<Rightarrow> bool" where
  "is_failed (Failed e) = True"
| "is_failed (Returned out) = False"
| "is_failed (Pending st) = False"

text \<open>
  The rule of the specification for the judgement, from the two significance flags of
  \<^verbatim>\<open>csm\<close> and the counts; \<open>None\<close> when the statistic stays undecided.  It is the
  comparison object for \<open>significance_test\<close>.
\<close>

definition spec_judgement :: "bool \<Rightarrow> bool \<Rightarrow> int \<Rightarrow> int \<Rightarrow> int \<Rightarrow> real \<Rightarrow> int option" where
  "spec_judgement lt_significant gt_significant lte gte tr eps =
     (if lt_significant \<and> real_of_int lte / real_of_int tr < eps then Some (- 1)
      else if gt_significant \<and> real_of_int gte / real_of_int tr < eps then Some 1
      else if lt_significant \<and> gt_significant then Some 0
      else None)"

text \<open>The invariant of the loop state between two samples.\<close>

definition state_inv :: "bool \<Rightarrow> loop_state \<Rightarrow> bool" where
  "state_inv nf st =
     (distinct (map fst (accumulators st)) \<and>
      list_all (\<lambda>p. acc_inv nf (snd p)) (accumulators st) \<and>
      list_all (\<lambda>p. res_ok (snd p)) (ret st))"

text \<open>Every accumulator of the first dictionary is in the second, with counters at least as large.\<close>

definition accumulators_le ::
  "(string \<times> ResultAccumulator) list \<Rightarrow> (string \<times> ResultAccumulator) list \<Rightarrow> bool"
where
  "accumulators_le accs accs' =
     list_all (\<lambda>p. case map_of accs' (fst p) of
                      None \<Rightarrow> False
                    | Some acc' \<Rightarrow> acc_le (snd p) acc') accs"

fun is_pending :: "outcome \<Rightarrow> bool" where
  "is_pending (Pending st) = True"
| "is_pending (Returned out) = False"
| "is_pending (Failed e) = False"

text \<open>
  The two calls of \<^verbatim>\<open>csm\<close> that one call of \<^verbatim>\<open>_significance_test\<close> makes, with the
  \<open>eps\<close> and \<open>log_inner_eps\<close> it was given.
\<close>

definition csm_calls_of_test ::
  "real \<Rightarrow> real \<Rightarrow> string \<times> int \<times> int \<times> int \<Rightarrow> (int \<times> real \<times> int \<times> real) list"
where
  "csm_calls_of_test eps lie c =
     (case c of (nm, lte, gte, tr) \<Rightarrow> [(tr, eps, lte, lie), (tr, eps, gte, lie)])"

text \<open>The \<open>eps\<close> argument of a call of \<^verbatim>\<open>csm\<close> is below one half.\<close>

definition csm_eps_small :: "int \<times> real \<times> int \<times> real \<Rightarrow> bool" where
  "csm_eps_small c = (case c of (tr, e, s, l) \<Rightarrow> e < 1 / 2)"


section \<open>Properties of the grouping\<close>

lemma undefaultdict_id: "undefaultdict x = x"
  unfolding undefaultdict_def by (induction x) (auto simp: map_idI)

lemma mset_concat_update:
  "mset (concat (map snd (AList.update k v al))) + mset (case map_of al k of None \<Rightarrow> [] | Some w \<Rightarrow> w)
     = mset (concat (map snd al)) + mset v"
  by (induction al) auto

lemma mset_concat2_update:
  "mset (concat (map snd (concat (map snd (AList.update k v pl)))))
     + mset (concat (map snd (case map_of pl k of None \<Rightarrow> [] | Some w \<Rightarrow> w)))
     = mset (concat (map snd (concat (map snd pl)))) + mset (concat (map snd v))"
  by (induction pl) auto

lemma mset_plan_append:
  "mset (plan_statistics (plan_append pl stat)) = mset (plan_statistics pl) + {#stat#}"
proof -
  define inner where "inner = (case map_of pl (probability_a_lower stat) of None \<Rightarrow> [] | Some d \<Rightarrow> d)"
  define offs where "offs = (a_offset stat, b_offset stat)"
  define bucket where "bucket = (case map_of inner offs of None \<Rightarrow> [] | Some l \<Rightarrow> l)"
  define inner' where "inner' = AList.update offs (bucket @ [stat]) inner"
  have pa: "plan_append pl stat = AList.update (probability_a_lower stat) inner' pl"
    by (simp add: plan_append_def Let_def inner_def offs_def bucket_def inner'_def)
  have 1: "mset (concat (map snd inner')) + mset bucket = mset (concat (map snd inner)) + mset (bucket @ [stat])"
    unfolding inner'_def bucket_def by (rule mset_concat_update)
  have 2: "mset (plan_statistics (plan_append pl stat)) + mset (concat (map snd inner))
        = mset (plan_statistics pl) + mset (concat (map snd inner'))"
    unfolding pa plan_statistics_def inner_def by (rule mset_concat2_update)
  from 1 have "mset (concat (map snd inner')) = mset (concat (map snd inner)) + {#stat#}" by simp
  with 2 show ?thesis by simp
qed

lemma mset_foldl_plan_append:
  "mset (plan_statistics (foldl plan_append pl stats)) = mset (plan_statistics pl) + mset stats"
  by (induction stats arbitrary: pl) (simp_all add: mset_plan_append)

lemma plan_bucket_append:
  "plan_bucket (plan_append pl stat) p offs =
     plan_bucket pl p offs @ (if stat_key stat = (p, offs) then [stat] else [])"
  by (auto simp: plan_bucket_def plan_append_def Let_def stat_key_def update_conv' split: option.splits)

lemma plan_bucket_foldl:
  "plan_bucket (foldl plan_append pl stats) p offs =
     plan_bucket pl p offs @ filter (\<lambda>s. stat_key s = (p, offs)) stats"
  by (induction stats arbitrary: pl) (simp_all add: plan_bucket_append)

lemma list_all_update:
  "list_all (\<lambda>(k, v). P v) al \<Longrightarrow> P v \<Longrightarrow> list_all (\<lambda>(k, v). P v) (AList.update k v al)"
  by (induction al) auto

lemma map_of_list_all: "list_all (\<lambda>(k, v). P v) al \<Longrightarrow> map_of al k = Some v \<Longrightarrow> P v"
  by (induction al) (auto split: if_splits)

lemma plan_keys_ok_append: "plan_keys_ok pl \<Longrightarrow> plan_keys_ok (plan_append pl stat)"
proof -
  assume ok: "plan_keys_ok pl"
  define inner where "inner = (case map_of pl (probability_a_lower stat) of None \<Rightarrow> [] | Some d \<Rightarrow> d)"
  define offs where "offs = (a_offset stat, b_offset stat)"
  define bucket where "bucket = (case map_of inner offs of None \<Rightarrow> [] | Some l \<Rightarrow> l)"
  define inner' where "inner' = AList.update offs (bucket @ [stat]) inner"
  define P where "P = (\<lambda>inner::(offsets \<times> Statistic list) list. inner \<noteq> [] \<and> distinct (map fst inner) \<and>
                  list_all (\<lambda>(offs, bucket). bucket \<noteq> []) inner)"
  have pa: "plan_append pl stat = AList.update (probability_a_lower stat) inner' pl"
    by (simp add: plan_append_def Let_def inner_def offs_def bucket_def inner'_def)
  from ok have d: "distinct (map fst pl)" and la: "list_all (\<lambda>(p, inner). P inner) pl"
    by (simp_all add: plan_keys_ok_def P_def)
  have "distinct (map fst inner) \<and> list_all (\<lambda>(offs, bucket). bucket \<noteq> []) inner"
  proof (cases "map_of pl (probability_a_lower stat)")
    case None then show ?thesis by (simp add: inner_def)
  next
    case (Some d)
    with map_of_list_all[OF la Some] show ?thesis by (simp add: inner_def P_def)
  qed
  then have "P inner'"
    unfolding P_def inner'_def
    by (auto simp: distinct_update intro: list_all_update)
  with la have "list_all (\<lambda>(p, inner). P inner) (plan_append pl stat)"
    unfolding pa by (rule list_all_update)
  moreover have "distinct (map fst (plan_append pl stat))"
    unfolding pa using d by (rule distinct_update)
  ultimately show ?thesis by (simp add: plan_keys_ok_def P_def)
qed

lemma plan_keys_ok_foldl: "plan_keys_ok pl \<Longrightarrow> plan_keys_ok (foldl plan_append pl stats)"
  by (induction stats arbitrary: pl) (simp_all add: plan_keys_ok_append)


text \<open>
  Claim C7.  Grouping is lossless and structural: the statistics of the plan, counted with
  multiplicity, are the input statistics; no key occurs twice at either level and no bucket
  is empty; the bucket under \<open>probability_a_lower\<close> and then \<open>(a_offset, b_offset)\<close>
  holds the input statistics with these keys, in the order of the input (so the result is
  determined by the ordered input); and the empty input gives the empty plan.
\<close>

theorem group_statistics_in_plan_lossless:
  "mset (plan_statistics (group_statistics_in_plan statistics)) = mset statistics
   \<and> plan_keys_ok (group_statistics_in_plan statistics)
   \<and> (\<forall>p offs. plan_bucket (group_statistics_in_plan statistics) p offs
                  = filter (\<lambda>s. stat_key s = (p, offs)) statistics)
   \<and> group_statistics_in_plan [] = []"
proof -
  have "plan_keys_ok []" by (simp add: plan_keys_ok_def)
  then have "plan_keys_ok (foldl plan_append [] statistics)" by (rule plan_keys_ok_foldl)
  moreover have "plan_statistics [] = []" "\<And>p offs. plan_bucket [] p offs = []"
    by (simp_all add: plan_statistics_def plan_bucket_def)
  ultimately show ?thesis
    by (simp add: group_statistics_in_plan_def undefaultdict_id mset_foldl_plan_append plan_bucket_foldl)
qed


section \<open>Properties of \<^verbatim>\<open>exact_test\<close>\<close>

text \<open>
  Claim C8.  With an empty list of statistics \<^verbatim>\<open>exact_test\<close> returns the empty
  dictionary at once, whatever the other arguments are: nothing is validated, no kernel is
  called on the actual data, nothing is printed and the sampler is not started (the run
  has no event at all).
\<close>

theorem exact_test_empty_statistics:
  "exact_test K xoshiro samples a b [] eps log_sink = ([], Returned [])"
  by (simp add: exact_test_def)

section \<open>Properties of the permutation kernel\<close>

text \<open>
  Claim C5.  When the shuffle returns false with the message \<open>msg\<close>, the computation of the
  first permutation fails, but with the \<open>TypeError\<close> that Python raises for the attempt to
  raise a string: the message of the shuffle is not in the error that reaches the caller.
\<close>

theorem shuffle_failure_loses_message:
  "snd (compute_results (K\<lparr>exact_test_shuffle := (\<lambda>g b m n p. (g, Inl msg))\<rparr>) g buf m n
          ((p, inner) # rest))
     = Inl (TypeError ''exceptions must derive from BaseException'')"
  by (simp add: compute_results_def py_raise_def)


section \<open>The arguments of \<^verbatim>\<open>csm\<close> and the independence of the log\<close>

lemma csm_calls_append: "csm_calls (xs @ ys) = csm_calls xs @ csm_calls ys"
  by (induction xs rule: csm_calls.induct) simp_all

lemma test_calls_append: "test_calls (xs @ ys) = test_calls xs @ test_calls ys"
  by (induction xs rule: test_calls.induct) simp_all

lemma significance_test_csm_calls:
  "csm_calls (fst (significance_test c r eps lie nm mc ad actual lte gte tr lg))
     = [(tr, eps, lte, lie), (tr, eps, gte, lie)]"
  by (cases lg) (simp_all add: significance_test_def Let_def case_prod_beta)

lemma test_accumulators_csm_calls:
  "list_all (csm_args_are eps lie) (csm_calls (fst (test_accumulators c eps lie sample ad as lg accs r)))"
  by (induction accs arbitrary: r)
     (auto simp: case_prod_beta csm_calls_append significance_test_csm_calls csm_args_are_def
           split: option.splits sum.splits)


lemma consume_sample_csm_calls:
  "list_all (csm_args_are eps lie)
     (csm_calls (fst (consume_sample c eps lie ad as lg st sample)))"
  using test_accumulators_csm_calls[of eps lie c sample ad as lg]
  by (auto simp: consume_sample_def Let_def case_prod_beta split: sum.splits)

lemma exact_test_loop_csm_calls:
  "list_all (csm_args_are eps lie)
     (csm_calls (fst (exact_test_loop c eps lie ad as lg st samples)))"
proof (induction samples arbitrary: st)
  case Nil show ?case by simp
next
  case (Cons s samples)
  show ?case
    using consume_sample_csm_calls[of eps lie c ad as lg st s] Cons.IH
    by (auto simp: case_prod_beta csm_calls_append split: outcome.splits)
qed

lemma csm_calls_no_csm: "list_all (\<lambda>ev. \<forall>tr e s l. ev \<noteq> CsmCall tr e s l) evs \<Longrightarrow> csm_calls evs = []"
  by (induction evs rule: csm_calls.induct) simp_all

lemma actual_data_results_csm_calls: "csm_calls (fst (actual_data_results K g sample statistics)) = []"
proof -
  have "csm_calls (map (\<lambda>stat. KernelCall (fn_name stat)) statistics) = []"
    by (induction statistics) simp_all
  then show ?thesis
    by (simp add: actual_data_results_def Let_def split: sum.splits)
qed

lemma exact_test_csm_calls:
  "list_all (csm_args_are (eps / (2 * real (length statistics) * 1.1))
               (ln (eps / (2 * real (length statistics) * 1.1) / 10)))
     (csm_calls (fst (exact_test K g samples a b statistics eps lg)))"
  using actual_data_results_csm_calls[of K g "\<lparr>a_class = a, b_class = b\<rparr>" statistics]
  by (cases lg)
     (auto simp: exact_test_def Let_def case_prod_beta csm_calls_append exact_test_loop_csm_calls
           split: sum.splits)


lemma unlogged_append: "unlogged (xs @ ys) = unlogged xs @ unlogged ys"
  by (induction xs rule: unlogged.induct) simp_all

lemma significance_test_log:
  "snd (significance_test c r eps lie nm mc ad actual lte gte tr log1)
     = snd (significance_test c r eps lie nm mc ad actual lte gte tr log2)"
  "unlogged (fst (significance_test c r eps lie nm mc ad actual lte gte tr log1))
     = unlogged (fst (significance_test c r eps lie nm mc ad actual lte gte tr log2))"
  by (cases log1; cases log2; simp add: significance_test_def Let_def case_prod_beta)+

lemma test_accumulators_log:
  "snd (test_accumulators c eps lie sample ad as log1 accs r)
     = snd (test_accumulators c eps lie sample ad as log2 accs r)
   \<and> unlogged (fst (test_accumulators c eps lie sample ad as log1 accs r))
     = unlogged (fst (test_accumulators c eps lie sample ad as log2 accs r))"
proof (induction accs arbitrary: r)
  case Nil show ?case by simp
next
  case (Cons p accs)
  obtain nm acc where p: "p = (nm, acc)" by (cases p)
  note st = significance_test_log[of c r eps lie nm _ ad _ "lte_actual acc" "gte_actual acc" "trials acc" log1 log2]
  show ?case
    unfolding p using Cons.IH st
    by (auto simp: case_prod_beta unlogged_append split: option.splits sum.splits)
qed

lemma consume_sample_log:
  "snd (consume_sample c eps lie ad as log1 st sample)
     = snd (consume_sample c eps lie ad as log2 st sample)
   \<and> unlogged (fst (consume_sample c eps lie ad as log1 st sample))
     = unlogged (fst (consume_sample c eps lie ad as log2 st sample))"
proof (cases "update_accumulators as (accumulators st) sample")
  case (Inl e) then show ?thesis by (simp add: consume_sample_def)
next
  case (Inr accs)
  from test_accumulators_log[of c eps lie sample ad as log1 accs "ret st" log2] Inr
  show ?thesis
    by (auto simp: consume_sample_def Let_def case_prod_beta split: sum.splits)
qed

lemma exact_test_loop_log:
  "snd (exact_test_loop c eps lie ad as log1 st samples)
     = snd (exact_test_loop c eps lie ad as log2 st samples)
   \<and> unlogged (fst (exact_test_loop c eps lie ad as log1 st samples))
     = unlogged (fst (exact_test_loop c eps lie ad as log2 st samples))"
proof (induction samples arbitrary: st)
  case Nil show ?case by simp
next
  case (Cons s samples)
  from consume_sample_log[of c eps lie ad as log1 st s log2]
  have 1: "snd (consume_sample c eps lie ad as log1 st s) = snd (consume_sample c eps lie ad as log2 st s)"
   and 2: "unlogged (fst (consume_sample c eps lie ad as log1 st s)) = unlogged (fst (consume_sample c eps lie ad as log2 st s))"
    by simp_all
  show ?case
  proof (cases "snd (consume_sample c eps lie ad as log2 st s)")
    case (Pending st')
    with 1 2 Cons.IH[of st'] show ?thesis
      by (simp add: case_prod_beta unlogged_append)
  next
    case (Failed e) with 1 2 show ?thesis by (simp add: case_prod_beta)
  next
    case (Returned out) with 1 2 show ?thesis by (simp add: case_prod_beta)
  qed
qed

lemma unlogged_printed:
  "unlogged (case lg of None \<Rightarrow> [] | Some sink \<Rightarrow> [Print line]) = []"
  by (cases lg) simp_all

lemma exact_test_log:
  "snd (exact_test K g samples a b statistics eps log1)
     = snd (exact_test K g samples a b statistics eps log2)
   \<and> unlogged (fst (exact_test K g samples a b statistics eps log1))
     = unlogged (fst (exact_test K g samples a b statistics eps log2))"
proof -
  have lp: "snd (exact_test_loop (csm K) e l ad as log1 st samples)
              = snd (exact_test_loop (csm K) e l ad as log2 st samples)"
           "unlogged (fst (exact_test_loop (csm K) e l ad as log1 st samples))
              = unlogged (fst (exact_test_loop (csm K) e l ad as log2 st samples))"
    for e l ad as st
    using exact_test_loop_log[of "csm K" e l ad as log1 st samples log2] by simp_all
  show ?thesis
    by (simp add: exact_test_def Let_def case_prod_beta unlogged_append unlogged_printed lp
             split: sum.splits)
qed


text \<open>
  Claim C10.  Two runs on the same inputs that read the same resampled values, one with a
  log sink and one without (or with any two sinks), end in the same outcome, with the same
  result dictionary; they differ in the printed lines only.
\<close>

theorem exact_test_log_independent:
  "snd (exact_test K g samples a b statistics eps log1)
     = snd (exact_test K g samples a b statistics eps log2)
   \<and> unlogged (fst (exact_test K g samples a b statistics eps log1))
     = unlogged (fst (exact_test K g samples a b statistics eps log2))"
  by (rule exact_test_log)

section \<open>The batch sizes of the parallel generators\<close>

lemma min_growth:
  "min (BATCH_SIZE_GROWTH_FACTOR * min (INITIAL_BATCH_SIZE * BATCH_SIZE_GROWTH_FACTOR ^ k) MAX_BATCH_SIZE) MAX_BATCH_SIZE
   = min (INITIAL_BATCH_SIZE * BATCH_SIZE_GROWTH_FACTOR ^ Suc k) MAX_BATCH_SIZE"
  unfolding BATCH_SIZE_GROWTH_FACTOR_def MAX_BATCH_SIZE_def INITIAL_BATCH_SIZE_def
  by (simp add: min_def)

lemma foldl_sampler_turn_batch_size:
  "batch_size st = min (INITIAL_BATCH_SIZE * BATCH_SIZE_GROWTH_FACTOR ^ k) MAX_BATCH_SIZE \<Longrightarrow>
   batch_size (foldl sampler_turn st turns)
     = min (INITIAL_BATCH_SIZE * BATCH_SIZE_GROWTH_FACTOR
              ^ (k + length (filter (\<lambda>turn. snd turn \<noteq> []) turns))) MAX_BATCH_SIZE"
proof (induction turns arbitrary: st k)
  case Nil then show ?case by simp
next
  case (Cons t turns)
  show ?case
  proof (cases "snd t = []")
    case True
    then have "batch_size (sampler_turn st t) = min (INITIAL_BATCH_SIZE * BATCH_SIZE_GROWTH_FACTOR ^ k) MAX_BATCH_SIZE"
      using Cons.prems by (cases t) (simp add: sampler_turn_def)
    from Cons.IH[OF this] True show ?thesis by simp
  next
    case False
    then have "batch_size (sampler_turn st t) = min (INITIAL_BATCH_SIZE * BATCH_SIZE_GROWTH_FACTOR ^ Suc k) MAX_BATCH_SIZE"
      using Cons.prems min_growth[of k] by (cases t) (simp add: sampler_turn_def)
    from Cons.IH[OF this] False show ?thesis by simp
  qed
qed

text \<open>
  Claim C6, as it holds.  In \<^verbatim>\<open>exact_test_sampler.py\<close> the batch size starts at
  \<open>INITIAL_BATCH_SIZE = 10\<close> and is doubled, up to \<open>MAX_BATCH_SIZE = 10^5\<close>, at every turn of
  the main loop that finds at least one completed future: after any sequence of turns it is
  \<open>min (10 * 2^k) 10^5\<close>, where \<open>k\<close> counts these turns.
\<close>

theorem sampler_batch_size_growth:
  fixes turns :: "('v \<times> 'v list list) list"
  shows "batch_size (sampler_generate_in_parallel turns)
     = min (INITIAL_BATCH_SIZE * BATCH_SIZE_GROWTH_FACTOR
              ^ length (filter (\<lambda>turn. snd turn \<noteq> []) turns)) MAX_BATCH_SIZE
   \<and> INITIAL_BATCH_SIZE = 10 \<and> BATCH_SIZE_GROWTH_FACTOR = 2 \<and> MAX_BATCH_SIZE = 10 ^ 5"
proof -
  have "batch_size \<lparr>batch_size = INITIAL_BATCH_SIZE, yielded = ([]::'v list)\<rparr>
      = min (INITIAL_BATCH_SIZE * BATCH_SIZE_GROWTH_FACTOR ^ 0) MAX_BATCH_SIZE"
    by (simp add: INITIAL_BATCH_SIZE_def MAX_BATCH_SIZE_def)
  from foldl_sampler_turn_batch_size[OF this, of turns]
  have "batch_size (sampler_generate_in_parallel turns)
     = min (INITIAL_BATCH_SIZE * BATCH_SIZE_GROWTH_FACTOR
              ^ length (filter (\<lambda>turn. snd turn \<noteq> []) turns)) MAX_BATCH_SIZE"
    by (simp add: sampler_generate_in_parallel_def)
  then show ?thesis
    by (simp add: INITIAL_BATCH_SIZE_def MAX_BATCH_SIZE_def BATCH_SIZE_GROWTH_FACTOR_def)
qed

text \<open>
  Claim C6, as it is stated, fails for the generator of \<^verbatim>\<open>exact_test.py\<close>, the one
  that \<^verbatim>\<open>exact_test\<close> runs.  With four processors its batch size is \<open>40\<close>; its first
  four work units are submitted with the initial batch size \<open>0\<close>, the maximum \<open>40\<close> and
  \<open>return_after = 80\<close>, and such a worker delivers batches of \<open>1, 1, 2, 3, 4\<close> values:
  its batch size starts at \<open>0\<close> and grows by one with every batch.
\<close>

theorem worker_batch_size_linear:
  "generate_in_parallel_setup (Some 4) = Inr 40
   \<and> initial_work_units 40 4
       = [(0, 40, 80), (0, 40, 80), (0, 40, 80), (0, 40, 80), (40, 40, 80), (40, 40, 80)]
   \<and> map length (fst (generate_in_parallel_worker (replicate 11 (0::nat)) 0 40 80))
       = [1, 1, 2, 3, 4]
   \<and> snd (generate_in_parallel_worker (replicate 11 (0::nat)) 0 40 80) = 5"
  by code_simp

section \<open>The invariant of the decision loop\<close>

subsection \<open>Accumulators\<close>

lemma float_le_total: "x \<noteq> NaN \<Longrightarrow> y \<noteq> NaN \<Longrightarrow> float_le x y \<or> float_le y x"
  by (cases x; cases y) auto

lemma accumulate_eq:
  "accumulate stat actual cur =
     cur\<lparr>lte_actual := lte_actual cur + (if float_le stat actual then 1 else 0),
         gte_actual := gte_actual cur + (if float_ge stat actual then 1 else 0),
         trials := trials cur + 1\<rparr>"
  by (simp add: accumulate_def Let_def)

lemma accumulate_inv:
  assumes "acc_inv nf cur" and "nf \<Longrightarrow> stat \<noteq> NaN \<and> actual \<noteq> NaN"
  shows "acc_inv nf (accumulate stat actual cur) \<and> 1 \<le> trials (accumulate stat actual cur)"
proof (cases nf)
  case True
  with assms(2) have "float_le stat actual \<or> float_le actual stat" by (simp add: float_le_total)
  with assms(1) True show ?thesis
    by (auto simp: acc_inv_def acc_ok_def acc_bounds_def accumulate_def float_ge_def Let_def)
next
  case False
  with assms(1) show ?thesis
    by (auto simp: acc_inv_def acc_bounds_def accumulate_def Let_def)
qed

lemma float_le_refl: "x \<noteq> NaN \<Longrightarrow> float_le x x"
  by (cases x) simp_all

lemma float_le_nan: "x = NaN \<or> y = NaN \<Longrightarrow> \<not> float_le x y"
  by (cases x; cases y) auto

lemma accumulate_equal:
  "stat = actual \<and> stat \<noteq> NaN \<Longrightarrow>
   lte_actual (accumulate stat actual cur) = lte_actual cur + 1
   \<and> gte_actual (accumulate stat actual cur) = gte_actual cur + 1"
  using float_le_refl[of stat] by (auto simp: accumulate_def float_ge_def Let_def)

lemma accumulate_nan:
  "stat = NaN \<or> actual = NaN \<Longrightarrow>
   lte_actual (accumulate stat actual cur) = lte_actual cur
   \<and> gte_actual (accumulate stat actual cur) = gte_actual cur"
  using float_le_nan[of stat actual] float_le_nan[of actual stat]
  by (auto simp: accumulate_def float_ge_def Let_def)

lemma accumulate_le: "acc_le cur (accumulate stat actual cur)"
  by (simp add: acc_le_def accumulate_def Let_def)

lemma acc_le_refl: "acc_le a a"
  by (simp add: acc_le_def)

lemma acc_le_trans: "acc_le a b \<Longrightarrow> acc_le b c \<Longrightarrow> acc_le a c"
  by (simp add: acc_le_def)

lemma map_of_list_all_snd: "list_all (\<lambda>p. P (snd p)) al \<Longrightarrow> map_of al k = Some v \<Longrightarrow> P v"
  by (induction al) (auto split: if_splits)

lemma nan_free_map_of: "nan_free d \<Longrightarrow> map_of d k = Some v \<Longrightarrow> v \<noteq> NaN"
  unfolding nan_free_def by (rule map_of_list_all_snd)

lemma update_accumulators_inv:
  "update_accumulators as accs sample = Inr accs' \<Longrightarrow>
   distinct (map fst accs) \<Longrightarrow>
   (\<And>nm acc. map_of accs nm = Some acc \<Longrightarrow> acc_inv nf acc \<and> (nm \<in> S \<longrightarrow> 1 \<le> trials acc)) \<Longrightarrow>
   (nf \<Longrightarrow> nan_free as \<and> nan_free sample) \<Longrightarrow>
   map fst accs' = map fst accs \<and>
   (\<forall>nm acc. map_of accs' nm = Some acc \<longrightarrow>
      acc_inv nf acc \<and> (nm \<in> S \<union> fst ` set sample \<longrightarrow> 1 \<le> trials acc))"
proof (induction sample arbitrary: accs S)
  case Nil
  then show ?case by auto
next
  case (Cons p rest)
  obtain nm stat where p: "p = (nm, stat)" by (cases p)
  from Cons.prems(1) p obtain actual cur where
    a: "map_of as nm = Some actual" and c: "map_of accs nm = Some cur"
    and rec: "update_accumulators as (AList.update nm (accumulate stat actual cur) accs) rest = Inr accs'"
    by (auto split: option.splits)
  let ?accs1 = "AList.update nm (accumulate stat actual cur) accs"
  have d1: "distinct (map fst ?accs1)" using Cons.prems(2) by (rule distinct_update)
  from c have "nm \<in> set (map fst accs)" by (metis map_of_eq_None_iff option.distinct(1) set_map)
  then have k1: "map fst ?accs1 = map fst accs" by (simp add: update_keys)
  have m1: "map_of ?accs1 = (map_of accs)(nm \<mapsto> accumulate stat actual cur)"
    by (rule update_conv')
  from Cons.prems(3)[OF c] have okc: "acc_inv nf cur" by simp
  have nn: "stat \<noteq> NaN \<and> actual \<noteq> NaN" if nf
    using Cons.prems(4)[OF that] p a by (auto simp: nan_free_def dest: map_of_list_all_snd)
  have nrest: "nan_free as \<and> nan_free rest" if nf
    using Cons.prems(4)[OF that] by (simp add: nan_free_def)
  have pre: "\<And>nm' acc. map_of ?accs1 nm' = Some acc \<Longrightarrow>
               acc_inv nf acc \<and> (nm' \<in> insert nm S \<longrightarrow> 1 \<le> trials acc)"
    using Cons.prems(3) accumulate_inv[OF okc nn] by (auto simp: m1 split: if_splits)
  from Cons.IH[OF rec d1 pre nrest] k1 p show ?case by auto
qed

lemma update_accumulators_mono:
  "update_accumulators as accs sample = Inr accs' \<Longrightarrow> map_of accs nm = Some acc \<Longrightarrow>
   \<exists>acc'. map_of accs' nm = Some acc' \<and> acc_le acc acc'"
proof (induction sample arbitrary: accs acc)
  case Nil
  then show ?case by (auto intro: acc_le_refl)
next
  case (Cons p rest)
  obtain k stat where p: "p = (k, stat)" by (cases p)
  from Cons.prems(1) p obtain actual cur where
    c: "map_of accs k = Some cur"
    and rec: "update_accumulators as (AList.update k (accumulate stat actual cur) accs) rest = Inr accs'"
    by (auto split: option.splits)
  let ?accs1 = "AList.update k (accumulate stat actual cur) accs"
  have m1: "map_of ?accs1 = (map_of accs)(k \<mapsto> accumulate stat actual cur)"
    by (rule update_conv')
  obtain acc1 where a1: "map_of ?accs1 nm = Some acc1" and le1: "acc_le acc acc1"
    using Cons.prems(2) c accumulate_le[of cur stat actual] by (cases "nm = k") (auto simp: m1 intro: acc_le_refl)
  from Cons.IH[OF rec a1] le1 show ?case by (auto intro: acc_le_trans)
qed

subsection \<open>The significance test\<close>

lemma significance_test_rule:
  "tr \<noteq> 0 \<Longrightarrow>
   snd (significance_test c r eps lie nm mc ad actual lte gte tr lg) =
     Inr (case spec_judgement (fst (c tr eps lte lie)) (fst (c tr eps gte lie)) lte gte tr eps of
            None \<Rightarrow> r
          | Some j \<Rightarrow>
              AList.update nm
                \<lparr>actual_value = actual, judgement = Some j, m_size = length (a_class ad),
                 n_size = length (b_class ad), num_trials = tr\<rparr> r)"
  by (simp add: significance_test_def spec_judgement_def Let_def case_prod_beta)

lemma spec_judgement_range:
  "spec_judgement ls gs lte gte tr eps = Some j \<Longrightarrow> j = - 1 \<or> j = 0 \<or> j = 1"
  by (auto simp: spec_judgement_def split: if_splits)

lemma list_all_snd_update:
  "list_all (\<lambda>p. P (snd p)) al \<Longrightarrow> P v \<Longrightarrow> list_all (\<lambda>p. P (snd p)) (AList.update k v al)"
  by (induction al) auto

lemma significance_test_ok:
  assumes "0 < tr" and "list_all (\<lambda>p. res_ok (snd p)) r"
  shows "\<exists>r'. snd (significance_test c r eps lie nm mc ad actual lte gte tr lg) = Inr r'
              \<and> list_all (\<lambda>p. res_ok (snd p)) r'"
proof (cases "spec_judgement (fst (c tr eps lte lie)) (fst (c tr eps gte lie)) lte gte tr eps")
  case None
  with assms significance_test_rule[of tr c r eps lie nm mc ad actual lte gte lg]
  show ?thesis by simp
next
  case (Some j)
  from spec_judgement_range[OF Some] assms(1)
  have "res_ok \<lparr>actual_value = actual, judgement = Some j, m_size = length (a_class ad),
                 n_size = length (b_class ad), num_trials = tr\<rparr>"
    by (auto simp: res_ok_def)
  with assms(2) have "list_all (\<lambda>p. res_ok (snd p))
      (AList.update nm \<lparr>actual_value = actual, judgement = Some j, m_size = length (a_class ad),
                 n_size = length (b_class ad), num_trials = tr\<rparr> r)"
    by (rule list_all_snd_update)
  with Some assms(1) significance_test_rule[of tr c r eps lie nm mc ad actual lte gte lg]
  show ?thesis by simp
qed

lemma significance_test_test_calls:
  "test_calls (fst (significance_test c r eps lie nm mc ad actual lte gte tr lg)) = []"
  by (cases lg) (simp_all add: significance_test_def Let_def case_prod_beta)

lemma test_accumulators_inv:
  assumes "list_all (\<lambda>p. acc_inv nf (snd p) \<and> (map_of sample (fst p) \<noteq> None \<longrightarrow> 1 \<le> trials (snd p))) accs"
      and "list_all (\<lambda>p. res_ok (snd p)) r"
  shows "list_all (test_call_inv nf) (test_calls (fst (test_accumulators c eps lie sample ad as lg accs r)))
         \<and> (case snd (test_accumulators c eps lie sample ad as lg accs r) of
              Inl e \<Rightarrow> e \<noteq> ZeroDivisionError
            | Inr r' \<Rightarrow> list_all (\<lambda>p. res_ok (snd p)) r')"
  using assms
proof (induction accs arbitrary: r)
  case Nil
  then show ?case by simp
next
  case (Cons p accs)
  obtain nm acc where p: "p = (nm, acc)" by (cases p)
  from Cons.prems(1) p have ok: "acc_inv nf acc"
    and tr: "map_of sample nm \<noteq> None \<Longrightarrow> 1 \<le> trials acc"
    and rest: "list_all (\<lambda>p. acc_inv nf (snd p) \<and> (map_of sample (fst p) \<noteq> None \<longrightarrow> 1 \<le> trials (snd p))) accs"
    by simp_all
  show ?case
  proof (cases "map_of r nm")
    case (Some res)
    with p Cons.IH[OF rest Cons.prems(2)] show ?thesis by simp
  next
    case None
    show ?thesis
    proof (cases "map_of sample nm")
      case N2: None
      with None p show ?thesis by simp
    next
      case (Some mc)
      with tr have tr1: "0 < trials acc" by simp
      show ?thesis
      proof (cases "map_of as nm")
        case N3: None
        with None Some p show ?thesis by simp
      next
        case S3: (Some actual)
        from significance_test_ok[OF tr1 Cons.prems(2), of c eps lie nm mc ad actual "lte_actual acc" "gte_actual acc" lg]
        obtain r' where s: "snd (significance_test c r eps lie nm mc ad actual (lte_actual acc) (gte_actual acc) (trials acc) lg) = Inr r'"
          and r': "list_all (\<lambda>p. res_ok (snd p)) r'" by blast
        have tc: "test_call_inv nf (nm, lte_actual acc, gte_actual acc, trials acc)"
          using ok tr1
          by (auto simp: test_call_inv_def test_call_ok_def test_call_bounds_def acc_inv_def
                         acc_ok_def acc_bounds_def split: if_splits)
        from Cons.IH[OF rest r'] s tc None Some S3 p show ?thesis
          by (simp add: case_prod_beta test_calls_append significance_test_test_calls)
      qed
    qed
  qed
qed


subsection \<open>The body of the loop\<close>

lemma update_accumulators_error:
  "update_accumulators as accs sample = Inl e \<Longrightarrow> e \<noteq> ZeroDivisionError"
  by (induction as accs sample rule: update_accumulators.induct) (auto split: option.splits)

lemma collect_results_ok:
  "list_all (\<lambda>p. res_ok (snd p)) r \<Longrightarrow>
   (case collect_results r nms of
      Inl e \<Rightarrow> e \<noteq> ZeroDivisionError
    | Inr out \<Rightarrow> list_all (\<lambda>p. res_ok (snd p)) out)"
  by (induction nms) (auto split: option.splits sum.splits dest: map_of_list_all_snd)

lemma consume_sample_inv:
  assumes "state_inv nf st" and "nf \<Longrightarrow> nan_free as \<and> nan_free sample"
  shows "list_all (test_call_inv nf) (test_calls (fst (consume_sample c eps lie ad as lg st sample)))
         \<and> (case snd (consume_sample c eps lie ad as lg st sample) of
              Failed e \<Rightarrow> e \<noteq> ZeroDivisionError
            | Returned out \<Rightarrow> list_all (\<lambda>p. res_ok (snd p)) out
            | Pending st' \<Rightarrow>
                state_inv nf st' \<and>
                (\<forall>nm acc. map_of (accumulators st) nm = Some acc \<longrightarrow>
                   (\<exists>acc'. map_of (accumulators st') nm = Some acc' \<and> acc_le acc acc')))"
proof (cases "update_accumulators as (accumulators st) sample")
  case (Inl e)
  with update_accumulators_error[OF Inl] show ?thesis by (simp add: consume_sample_def)
next
  case (Inr accs)
  have d: "distinct (map fst (accumulators st))"
    and a: "list_all (\<lambda>p. acc_inv nf (snd p)) (accumulators st)"
    and r: "list_all (\<lambda>p. res_ok (snd p)) (ret st)"
    using assms(1) by (simp_all add: state_inv_def)
  have pre: "\<And>nm acc. map_of (accumulators st) nm = Some acc \<Longrightarrow> acc_inv nf acc \<and> (nm \<in> {} \<longrightarrow> 1 \<le> trials acc)"
    using a by (auto dest: map_of_list_all_snd)
  from update_accumulators_inv[OF Inr d pre assms(2)]
  have k: "map fst accs = map fst (accumulators st)"
    and post: "\<And>nm acc. map_of accs nm = Some acc \<Longrightarrow>
                 acc_inv nf acc \<and> (nm \<in> fst ` set sample \<longrightarrow> 1 \<le> trials acc)"
    by auto
  from k d have d': "distinct (map fst accs)" by simp
  have each: "acc_inv nf (snd p) \<and> (map_of sample (fst p) \<noteq> None \<longrightarrow> 1 \<le> trials (snd p))"
    if "p \<in> set accs" for p
  proof -
    have "(fst p, snd p) \<in> set accs" using that by simp
    with d' have "map_of accs (fst p) = Some (snd p)" by (rule map_of_is_SomeI)
    from post[OF this] show ?thesis by (auto simp: map_of_eq_None_iff)
  qed
  then have A: "list_all (\<lambda>p. acc_inv nf (snd p) \<and> (map_of sample (fst p) \<noteq> None \<longrightarrow> 1 \<le> trials (snd p))) accs"
    by (simp add: list_all_iff)
  from each have a': "list_all (\<lambda>p. acc_inv nf (snd p)) accs" by (simp add: list_all_iff)
  have mono: "\<forall>nm acc. map_of (accumulators st) nm = Some acc \<longrightarrow>
                   (\<exists>acc'. map_of accs nm = Some acc' \<and> acc_le acc acc')"
    using update_accumulators_mono[OF Inr] by blast
  note T = test_accumulators_inv[OF A r, of c eps lie ad as lg]
  show ?thesis
  proof (cases "(seen st + 1) mod test_every st \<noteq> 0")
    case True
    with Inr d' a' r mono show ?thesis
      by (simp add: consume_sample_def Let_def state_inv_def)
  next
    case False
    show ?thesis
    proof (cases "snd (test_accumulators c eps lie sample ad as lg accs (ret st))")
      case (Inl e)
      with T False Inr show ?thesis
        by (simp add: consume_sample_def Let_def case_prod_beta)
    next
      case R: (Inr r')
      with T have r': "list_all (\<lambda>p. res_ok (snd p)) r'" by simp
      from collect_results_ok[OF r', of "map fst as"] T False Inr R d' a' r' mono
      show ?thesis
        by (auto simp: consume_sample_def Let_def case_prod_beta state_inv_def split: sum.splits)
    qed
  qed
qed


subsection \<open>The loop\<close>

lemma exact_test_loop_inv:
  assumes "state_inv nf st" and "nf \<Longrightarrow> nan_free as \<and> list_all nan_free samples"
  shows "list_all (test_call_inv nf) (test_calls (fst (exact_test_loop c eps lie ad as lg st samples)))
         \<and> (case snd (exact_test_loop c eps lie ad as lg st samples) of
              Failed e \<Rightarrow> e \<noteq> ZeroDivisionError
            | Returned out \<Rightarrow> list_all (\<lambda>p. res_ok (snd p)) out
            | Pending st' \<Rightarrow>
                state_inv nf st' \<and>
                (\<forall>nm acc. map_of (accumulators st) nm = Some acc \<longrightarrow>
                   (\<exists>acc'. map_of (accumulators st') nm = Some acc' \<and> acc_le acc acc')))"
  using assms
proof (induction samples arbitrary: st)
  case Nil
  then show ?case by (auto intro: acc_le_refl)
next
  case (Cons s samples)
  have n1: "nan_free as \<and> nan_free s" if nf using Cons.prems(2)[OF that] by simp
  have n2: "nan_free as \<and> list_all nan_free samples" if nf using Cons.prems(2)[OF that] by simp
  note C = consume_sample_inv[OF Cons.prems(1) n1, of c eps lie ad lg]
  show ?case
  proof (cases "snd (consume_sample c eps lie ad as lg st s)")
    case (Failed e)
    with C show ?thesis by (simp add: case_prod_beta)
  next
    case (Returned out)
    with C show ?thesis by (simp add: case_prod_beta)
  next
    case (Pending st1)
    with C have ok1: "state_inv nf st1"
      and m1: "\<And>nm acc. map_of (accumulators st) nm = Some acc \<Longrightarrow>
                 \<exists>acc'. map_of (accumulators st1) nm = Some acc' \<and> acc_le acc acc'"
      and t1: "list_all (test_call_inv nf) (test_calls (fst (consume_sample c eps lie ad as lg st s)))"
      by simp_all
    note I = Cons.IH[OF ok1 n2]
    show ?thesis
    proof (cases "snd (exact_test_loop c eps lie ad as lg st1 samples)")
      case F: (Failed e)
      with I t1 Pending show ?thesis by (simp add: case_prod_beta test_calls_append)
    next
      case R: (Returned out)
      with I t1 Pending show ?thesis by (simp add: case_prod_beta test_calls_append)
    next
      case P: (Pending st2)
      with I have ok2: "state_inv nf st2"
        and m2: "\<And>nm acc. map_of (accumulators st1) nm = Some acc \<Longrightarrow>
                 \<exists>acc'. map_of (accumulators st2) nm = Some acc' \<and> acc_le acc acc'"
        and t2: "list_all (test_call_inv nf) (test_calls (fst (exact_test_loop c eps lie ad as lg st1 samples)))"
        by simp_all
      have "\<exists>acc'. map_of (accumulators st2) nm = Some acc' \<and> acc_le acc acc'"
        if "map_of (accumulators st) nm = Some acc" for nm acc
      proof -
        from m1[OF that] obtain acc1 where a: "map_of (accumulators st1) nm = Some acc1" and b: "acc_le acc acc1" by blast
        from m2[OF a] obtain acc2 where c: "map_of (accumulators st2) nm = Some acc2" and d: "acc_le acc1 acc2" by blast
        from b d have "acc_le acc acc2" by (rule acc_le_trans)
        with c show ?thesis by blast
      qed
      with ok2 t1 t2 P Pending show ?thesis by (simp add: case_prod_beta test_calls_append)
    qed
  qed
qed

lemma exact_test_loop_append:
  "exact_test_loop c eps lie ad as lg st (xs @ ys) =
     (case snd (exact_test_loop c eps lie ad as lg st xs) of
        Pending st' \<Rightarrow>
          (fst (exact_test_loop c eps lie ad as lg st xs) @ fst (exact_test_loop c eps lie ad as lg st' ys),
           snd (exact_test_loop c eps lie ad as lg st' ys))
      | Failed e \<Rightarrow> exact_test_loop c eps lie ad as lg st xs
      | Returned out \<Rightarrow> exact_test_loop c eps lie ad as lg st xs)"
proof (induction xs arbitrary: st)
  case Nil
  show ?case by simp
next
  case (Cons x xs)
  show ?case
    by (cases "snd (consume_sample c eps lie ad as lg st x)")
       (auto simp: case_prod_beta Cons.IH split: outcome.splits)
qed

subsection \<open>The whole run\<close>

lemma foldl_update_zero:
  "distinct (map fst d) \<Longrightarrow> list_all (\<lambda>p. acc_inv nf (snd p)) d \<Longrightarrow>
   distinct (map fst (foldl (\<lambda>d stat_name. AList.update stat_name \<lparr>trials = 0, lte_actual = 0, gte_actual = 0\<rparr> d) d nms))
   \<and> list_all (\<lambda>p. acc_inv nf (snd p)) (foldl (\<lambda>d stat_name. AList.update stat_name \<lparr>trials = 0, lte_actual = 0, gte_actual = 0\<rparr> d) d nms)"
proof (induction nms arbitrary: d)
  case Nil then show ?case by simp
next
  case (Cons nm nms)
  have z: "acc_inv nf \<lparr>trials = 0, lte_actual = 0, gte_actual = 0\<rparr>"
    by (simp add: acc_inv_def acc_ok_def acc_bounds_def)
  have "list_all (\<lambda>p. acc_inv nf (snd p)) (AList.update nm \<lparr>trials = 0, lte_actual = 0, gte_actual = 0\<rparr> d)"
    using Cons.prems(2) z by (rule list_all_snd_update)
  moreover have "distinct (map fst (AList.update nm \<lparr>trials = 0, lte_actual = 0, gte_actual = 0\<rparr> d))"
    using Cons.prems(1) by (rule distinct_update)
  ultimately show ?case by (simp add: Cons.IH)
qed

lemma initial_state_inv: "state_inv nf (initial_state as)"
  using foldl_update_zero[of "[]" nf "map fst as"] by (simp add: state_inv_def initial_state_def)

lemma test_calls_kernel: "test_calls (map (\<lambda>stat. KernelCall (fn_name stat)) statistics) = []"
  by (induction statistics) simp_all

lemma actual_data_results_test_calls:
  "test_calls (fst (actual_data_results K g sample statistics)) = []"
  by (simp add: actual_data_results_def Let_def test_calls_kernel split: sum.splits)

lemma actual_data_results_error:
  "snd (actual_data_results K g sample statistics) = Inl e \<Longrightarrow> e \<noteq> ZeroDivisionError"
proof -
  have "make_buf xs = Inl e \<Longrightarrow> e \<noteq> ZeroDivisionError" for xs
    by (induction xs) (auto split: if_splits sum.splits)
  then show "snd (actual_data_results K g sample statistics) = Inl e \<Longrightarrow> e \<noteq> ZeroDivisionError"
    by (auto simp: actual_data_results_def Let_def split: sum.splits)
qed

lemma test_calls_printed:
  "test_calls (case lg of None \<Rightarrow> [] | Some sink \<Rightarrow> [Print line]) = []"
  by (cases lg) simp_all

lemma exact_test_inv:
  assumes "nf \<Longrightarrow> actual_nan_free K g a b statistics \<and> list_all nan_free samples"
  shows "list_all (test_call_inv nf) (test_calls (fst (exact_test K g samples a b statistics eps lg)))
   \<and> (case snd (exact_test K g samples a b statistics eps lg) of
        Failed e \<Rightarrow> e \<noteq> ZeroDivisionError
      | Returned out \<Rightarrow> list_all (\<lambda>p. res_ok (snd p)) out
      | Pending st' \<Rightarrow> state_inv nf st')"
proof (cases "snd (actual_data_results K g \<lparr>a_class = a, b_class = b\<rparr> statistics)")
  case (Inl e)
  with actual_data_results_error[OF Inl] show ?thesis
    by (auto simp: exact_test_def Let_def case_prod_beta actual_data_results_test_calls)
next
  case (Inr as)
  have n: "nan_free as \<and> list_all nan_free samples" if nf
    using assms[OF that] Inr by (simp add: actual_nan_free_def)
  have I: "state_inv nf (initial_state as)" by (rule initial_state_inv)
  have L: "list_all (test_call_inv nf) (test_calls (fst (exact_test_loop c e l ad as lg (initial_state as) samples)))
         \<and> (case snd (exact_test_loop c e l ad as lg (initial_state as) samples) of
              Failed e \<Rightarrow> e \<noteq> ZeroDivisionError
            | Returned out \<Rightarrow> list_all (\<lambda>p. res_ok (snd p)) out
            | Pending st' \<Rightarrow> state_inv nf st')" for c e l ad
    using exact_test_loop_inv[OF I n, where c = c and eps = e and lie = l and ad = ad and lg = lg]
    by (auto split: outcome.splits)
  show ?thesis
    using Inr
    by (auto simp: exact_test_def Let_def case_prod_beta test_calls_append test_calls_printed
                   actual_data_results_test_calls generate_in_parallel_setup_def
                   L[THEN conjunct1]
             split: sum.splits option.splits intro: L[THEN conjunct2])
qed


section \<open>The order of the two sides of the significance test\<close>

lemma tails_exclusive:
  assumes "0 < tr" and "tr \<le> lte + gte" and "eps < 1 / 2"
  shows "\<not> (real_of_int lte / real_of_int tr < eps \<and> real_of_int gte / real_of_int tr < eps)"
proof
  assume a: "real_of_int lte / real_of_int tr < eps \<and> real_of_int gte / real_of_int tr < eps"
  from assms(1) have p: "0 < real_of_int tr" by simp
  from a assms(3) have "real_of_int lte / real_of_int tr + real_of_int gte / real_of_int tr < 1" by linarith
  then have "(real_of_int lte + real_of_int gte) / real_of_int tr < 1" by (simp add: add_divide_distrib)
  with p have "real_of_int lte + real_of_int gte < real_of_int tr" by (simp add: pos_divide_less_eq)
  then have "lte + gte < tr" by linarith
  with assms(2) show False by simp
qed

lemma significance_test_gt_first_same:
  assumes "0 < tr" and "tr \<le> lte + gte" and "eps < 1 / 2"
  shows "snd (significance_test c r eps lie nm mc ad actual lte gte tr lg)
       = snd (significance_test_gt_first c r eps lie nm mc ad actual lte gte tr lg)"
  using tails_exclusive[OF assms] assms(1)
  by (auto simp: significance_test_def significance_test_gt_first_def Let_def case_prod_beta)

lemma corrected_eps_small:
  assumes "statistics \<noteq> []" and "eps \<le> 1"
  shows "eps / (2 * real (length statistics) * 1.1) < 1 / 2"
proof -
  have "0 < length statistics" using assms(1) by simp
  then have n: "1 \<le> real (length statistics)" by linarith
  then have e: "eps < 1.1 * real (length statistics)" using assms(2) by linarith
  have pos: "0 < 2 * real (length statistics) * 1.1" using assms(1) by simp
  have "eps / (2 * real (length statistics) * 1.1) < 1 / 2
        \<longleftrightarrow> eps < 1 / 2 * (2 * real (length statistics) * 1.1)"
    using pos by (rule pos_divide_less_eq)
  with e show ?thesis by simp
qed


section \<open>Failure before sampling\<close>





section \<open>The outcome as a function of the samples\<close>

lemma exact_test_outcome_cases:
  "(\<exists>out. \<not> is_pending out \<and> (\<forall>samples. snd (exact_test K g samples a b statistics eps lg) = out))
   \<or> (\<exists>c e l ad as. \<forall>samples. snd (exact_test K g samples a b statistics eps lg)
                                 = snd (exact_test_loop c e l ad as lg (initial_state as) samples))"
proof (cases "statistics = []")
  case True
  then have "\<forall>samples. snd (exact_test K g samples a b statistics eps lg) = Returned []"
    by (simp add: exact_test_def)
  then show ?thesis by (intro disjI1 exI[of _ "Returned []"]) simp
next
  case False
  show ?thesis
  proof (cases "eps / (2 * real (length statistics) * 1.1) / 10 \<le> 0")
    case True
    with False have "\<forall>samples. snd (exact_test K g samples a b statistics eps lg)
                        = Failed (ValueError ''math domain error'')"
      by (simp add: exact_test_def Let_def)
    then show ?thesis by (intro disjI1 exI[of _ "Failed (ValueError ''math domain error'')"]) simp
  next
    case ne: False
    show ?thesis
    proof (cases "snd (actual_data_results K g \<lparr>a_class = a, b_class = b\<rparr> statistics)")
      case (Inl e)
      with False ne have "\<forall>samples. snd (exact_test K g samples a b statistics eps lg) = Failed e"
        by (simp add: exact_test_def Let_def case_prod_beta)
      then show ?thesis by (intro disjI1 exI[of _ "Failed e"]) simp
    next
      case (Inr as)
      show ?thesis
      proof (cases "generate_in_parallel_setup (cpu_count K)")
        case S: (Inl e)
        with Inr False ne have "\<forall>samples. snd (exact_test K g samples a b statistics eps lg) = Failed e"
          by (simp add: exact_test_def Let_def case_prod_beta)
        then show ?thesis by (intro disjI1 exI[of _ "Failed e"]) simp
      next
        case S: (Inr bs)
        with Inr False ne have "\<forall>samples. snd (exact_test K g samples a b statistics eps lg)
           = snd (exact_test_loop (csm K) (eps / (2 * real (length statistics) * 1.1))
                    (ln (eps / (2 * real (length statistics) * 1.1) / 10))
                    \<lparr>a_class = a, b_class = b\<rparr> as lg (initial_state as) samples)"
          by (simp add: exact_test_def Let_def case_prod_beta)
        then show ?thesis by blast
      qed
    qed
  qed
qed

lemma accumulators_leI:
  assumes "distinct (map fst accs)"
    and "\<And>nm acc. map_of accs nm = Some acc \<Longrightarrow> \<exists>acc'. map_of accs' nm = Some acc' \<and> acc_le acc acc'"
  shows "accumulators_le accs accs'"
proof -
  have "case map_of accs' (fst p) of None \<Rightarrow> False | Some acc' \<Rightarrow> acc_le (snd p) acc'"
    if "p \<in> set accs" for p
  proof -
    have "(fst p, snd p) \<in> set accs" using that by simp
    with assms(1) have "map_of accs (fst p) = Some (snd p)" by (rule map_of_is_SomeI)
    from assms(2)[OF this] show ?thesis by auto
  qed
  then show ?thesis by (simp add: accumulators_le_def list_all_iff)
qed

lemma exact_test_monotone:
  assumes "is_pending (snd (exact_test K g (samples @ later) a b statistics eps lg))"
  shows "accumulators_le
           (outcome_accumulators (snd (exact_test K g samples a b statistics eps lg)))
           (outcome_accumulators (snd (exact_test K g (samples @ later) a b statistics eps lg)))"
proof -
  from exact_test_outcome_cases[of K g a b statistics eps lg] assms
  obtain c e l ad as where
    E: "\<And>samples. snd (exact_test K g samples a b statistics eps lg)
                     = snd (exact_test_loop c e l ad as lg (initial_state as) samples)"
    by metis
  let ?L = "\<lambda>st xs. exact_test_loop c e l ad as lg st xs"
  from assms E have pend: "is_pending (snd (?L (initial_state as) (samples @ later)))" by simp
  show ?thesis
  proof (cases "snd (?L (initial_state as) samples)")
    case (Failed err)
    with pend show ?thesis by (simp add: exact_test_loop_append)
  next
    case (Returned out)
    with pend show ?thesis by (simp add: exact_test_loop_append)
  next
    case (Pending st1)
    have I: "state_inv False (initial_state as)" by (rule initial_state_inv)
    have F: "nan_free as \<and> list_all nan_free xs" if False for xs using that by simp
    from Pending exact_test_loop_inv[OF I F[of samples], where c = c and eps = e and lie = l
                                       and ad = ad and lg = lg]
    have ok1: "state_inv False st1" by simp
    from Pending have app: "snd (?L (initial_state as) (samples @ later)) = snd (?L st1 later)"
      by (simp add: exact_test_loop_append)
    with pend obtain st2 where P2: "snd (?L st1 later) = Pending st2"
      by (cases "snd (?L st1 later)") simp_all
    with exact_test_loop_inv[OF ok1 F[of later], where c = c and eps = e and lie = l
                               and ad = ad and lg = lg]
    have "\<And>nm acc. map_of (accumulators st1) nm = Some acc \<Longrightarrow>
             \<exists>acc'. map_of (accumulators st2) nm = Some acc' \<and> acc_le acc acc'"
      by simp
    moreover from ok1 have "distinct (map fst (accumulators st1))" by (simp add: state_inv_def)
    ultimately have "accumulators_le (accumulators st1) (accumulators st2)"
      by (rule accumulators_leI[rotated])
    with E Pending app P2 show ?thesis by simp
  qed
qed


section \<open>The corrected \<open>eps\<close> in the calls of \<^verbatim>\<open>csm\<close>\<close>

lemma exact_test_csm_eps_small:
  assumes "eps \<le> 1"
  shows "list_all csm_eps_small (csm_calls (fst (exact_test K g samples a b statistics eps lg)))"
proof (cases "statistics = []")
  case True
  then show ?thesis by (simp add: exact_test_def)
next
  case False
  from corrected_eps_small[OF False assms]
  have "csm_eps_small c" if "csm_args_are (eps / (2 * real (length statistics) * 1.1))
               (ln (eps / (2 * real (length statistics) * 1.1) / 10)) c" for c
    using that by (auto simp: csm_eps_small_def csm_args_are_def)
  with exact_test_csm_calls[of eps statistics K g samples a b lg]
  show ?thesis by (auto simp: list_all_iff)
qed

section \<open>The calls of \<^verbatim>\<open>csm\<close> in a run\<close>

lemma test_accumulators_csm_calls_eq:
  "csm_calls (fst (test_accumulators c eps lie sample ad as lg accs r))
     = concat (map (csm_calls_of_test eps lie)
                 (test_calls (fst (test_accumulators c eps lie sample ad as lg accs r))))"
  by (induction accs arbitrary: r)
     (auto simp: case_prod_beta csm_calls_append test_calls_append significance_test_csm_calls
                 significance_test_test_calls csm_calls_of_test_def
           split: option.splits sum.splits)

lemma consume_sample_csm_calls_eq:
  "csm_calls (fst (consume_sample c eps lie ad as lg st sample))
     = concat (map (csm_calls_of_test eps lie)
                 (test_calls (fst (consume_sample c eps lie ad as lg st sample))))"
  using test_accumulators_csm_calls_eq[of c eps lie sample ad as lg]
  by (auto simp: consume_sample_def Let_def case_prod_beta split: sum.splits)

lemma exact_test_loop_csm_calls_eq:
  "csm_calls (fst (exact_test_loop c eps lie ad as lg st samples))
     = concat (map (csm_calls_of_test eps lie)
                 (test_calls (fst (exact_test_loop c eps lie ad as lg st samples))))"
proof (induction samples arbitrary: st)
  case Nil show ?case by simp
next
  case (Cons s samples)
  show ?case
    using consume_sample_csm_calls_eq[of c eps lie ad as lg st s] Cons.IH
    by (auto simp: case_prod_beta csm_calls_append test_calls_append split: outcome.splits)
qed

lemma csm_calls_printed:
  "csm_calls (case lg of None \<Rightarrow> [] | Some sink \<Rightarrow> [Print line]) = []"
  by (cases lg) simp_all

lemma exact_test_csm_calls_eq:
  "csm_calls (fst (exact_test K g samples a b statistics eps lg))
     = concat (map (csm_calls_of_test (eps / (2 * real (length statistics) * 1.1))
                      (ln (eps / (2 * real (length statistics) * 1.1) / 10)))
                 (test_calls (fst (exact_test K g samples a b statistics eps lg))))"
  by (auto simp: exact_test_def Let_def case_prod_beta csm_calls_append test_calls_append
                 csm_calls_printed test_calls_printed actual_data_results_csm_calls
                 actual_data_results_test_calls exact_test_loop_csm_calls_eq
           split: sum.splits)

subsection \<open>The first test of a run\<close>

lemma update_accumulators_nonempty:
  "update_accumulators as accs sample = Inr accs' \<Longrightarrow> accs \<noteq> [] \<Longrightarrow> accs' \<noteq> []"
proof (induction sample arbitrary: accs)
  case Nil
  then show ?case by simp
next
  case (Cons p rest)
  obtain nm stat where p: "p = (nm, stat)" by (cases p)
  from Cons.prems(1) p obtain actual cur where
    rec: "update_accumulators as (AList.update nm (accumulate stat actual cur) accs) rest = Inr accs'"
    by (auto split: option.splits)
  have "AList.update nm (accumulate stat actual cur) accs \<noteq> []"
    by (cases accs) auto
  with Cons.IH[OF rec] show ?case by simp
qed

lemma exact_test_loop_before_test:
  assumes "test_every st = 250" and "0 \<le> seen st" and "seen st + int (length xs) < 250"
  shows "case snd (exact_test_loop c eps lie ad as lg st xs) of
           Failed e \<Rightarrow> True
         | Returned out \<Rightarrow> False
         | Pending st' \<Rightarrow>
             seen st' = seen st + int (length xs) \<and> test_every st' = 250 \<and> ret st' = ret st \<and>
             (accumulators st = [] \<or> accumulators st' \<noteq> [])"
  using assms
proof (induction xs arbitrary: st)
  case Nil
  then show ?case by simp
next
  case (Cons x xs)
  show ?case
  proof (cases "update_accumulators as (accumulators st) x")
    case (Inl e)
    then show ?thesis by (simp add: consume_sample_def)
  next
    case (Inr accs)
    let ?st1 = "st\<lparr>accumulators := accs, seen := seen st + 1\<rparr>"
    from Cons.prems have m: "(seen st + 1) mod 250 \<noteq> 0" by simp
    with Inr Cons.prems(1)
    have c1: "consume_sample c eps lie ad as lg st x = ([], Pending ?st1)"
      by (simp add: consume_sample_def Let_def)
    have "test_every ?st1 = 250" "0 \<le> seen ?st1" "seen ?st1 + int (length xs) < 250"
      using Cons.prems by simp_all
    from Cons.IH[OF this]
    have I: "case snd (exact_test_loop c eps lie ad as lg ?st1 xs) of
           Failed e \<Rightarrow> True
         | Returned out \<Rightarrow> False
         | Pending st' \<Rightarrow>
             seen st' = seen ?st1 + int (length xs) \<and> test_every st' = 250 \<and> ret st' = ret ?st1 \<and>
             (accumulators ?st1 = [] \<or> accumulators st' \<noteq> [])" .
    have ne: "accumulators st = [] \<or> accs \<noteq> []"
      using update_accumulators_nonempty[OF Inr] by blast
    from I ne c1 show ?thesis
      by (cases "snd (exact_test_loop c eps lie ad as lg ?st1 xs)")
         (auto simp: case_prod_beta)
  qed
qed

lemma consume_sample_first_test:
  assumes "test_every st = 250" and "seen st = 249" and "ret st = []" and "accumulators st \<noteq> []"
  shows "is_failed (snd (consume_sample c eps lie ad as lg st x))
         \<or> test_calls (fst (consume_sample c eps lie ad as lg st x)) \<noteq> []"
proof (cases "update_accumulators as (accumulators st) x")
  case (Inl e)
  then show ?thesis by (simp add: consume_sample_def)
next
  case (Inr accs)
  from update_accumulators_nonempty[OF Inr assms(4)]
  obtain nm acc rest where accs: "accs = (nm, acc) # rest" by (cases accs) auto
  have T: "(\<exists>e. snd (test_accumulators c eps lie x ad as lg accs []) = Inl e)
           \<or> test_calls (fst (test_accumulators c eps lie x ad as lg accs [])) \<noteq> []"
    unfolding accs by (auto simp: case_prod_beta split: option.splits sum.splits)
  from T Inr assms(1,2,3) show ?thesis
    by (auto simp: consume_sample_def Let_def case_prod_beta split: sum.splits)
qed

lemma exact_test_loop_first_test:
  assumes "test_every st = 250" and "seen st = 0" and "ret st = []" and "accumulators st \<noteq> []"
    and "250 \<le> length samples"
  shows "is_failed (snd (exact_test_loop c eps lie ad as lg st samples))
         \<or> test_calls (fst (exact_test_loop c eps lie ad as lg st samples)) \<noteq> []"
proof -
  let ?L = "\<lambda>st xs. exact_test_loop c eps lie ad as lg st xs"
  from assms(5) obtain x rest where d: "drop 249 samples = x # rest"
    by (cases "drop 249 samples") auto
  have s: "samples = take 249 samples @ x # rest" using d by (metis append_take_drop_id)
  from assms(5) have l: "length (take 249 samples) = 249" by simp
  have B: "case snd (?L st (take 249 samples)) of
           Failed e \<Rightarrow> True
         | Returned out \<Rightarrow> False
         | Pending st' \<Rightarrow>
             seen st' = seen st + int (length (take 249 samples)) \<and> test_every st' = 250
             \<and> ret st' = ret st \<and> (accumulators st = [] \<or> accumulators st' \<noteq> [])"
    using assms(1,2) l by (intro exact_test_loop_before_test) simp_all
  show ?thesis
  proof (cases "snd (?L st (take 249 samples))")
    case (Failed e)
    have "snd (?L st (take 249 samples @ x # rest)) = Failed e"
      using Failed by (simp add: exact_test_loop_append)
    with s show ?thesis by simp
  next
    case (Returned out)
    with B show ?thesis by simp
  next
    case (Pending st1)
    with B l assms(2,3,4) have p: "test_every st1 = 250" "seen st1 = 249" "ret st1 = []"
      "accumulators st1 \<noteq> []" by simp_all
    note C = consume_sample_first_test[OF p, of c eps lie ad as lg x]
    have A: "?L st (take 249 samples @ x # rest)
             = (fst (?L st (take 249 samples)) @ fst (?L st1 (x # rest)), snd (?L st1 (x # rest)))"
      using Pending by (simp add: exact_test_loop_append)
    have "is_failed (snd (?L st1 (x # rest))) \<or> test_calls (fst (?L st1 (x # rest))) \<noteq> []"
      using C
      by (cases "snd (consume_sample c eps lie ad as lg st1 x)")
         (auto simp: case_prod_beta test_calls_append)
    with A have "is_failed (snd (?L st (take 249 samples @ x # rest)))
         \<or> test_calls (fst (?L st (take 249 samples @ x # rest))) \<noteq> []"
      by (auto simp: test_calls_append)
    with s show ?thesis by simp
  qed
qed

lemma foldl_update_nonempty:
  "xs \<noteq> [] \<or> d \<noteq> [] \<Longrightarrow> foldl (\<lambda>d x. AList.update (k x) (v x) d) d xs \<noteq> []"
proof (induction xs arbitrary: d)
  case Nil
  then show ?case by simp
next
  case (Cons x xs)
  have "AList.update (k x) (v x) d \<noteq> []" by (cases d) auto
  with Cons.IH[of "AList.update (k x) (v x) d"] show ?case by simp
qed

lemma actual_data_results_nonempty:
  assumes "statistics \<noteq> []"
    and "snd (actual_data_results K g sample statistics) = Inr as"
  shows "as \<noteq> []"
proof (cases "make_buf (a_class sample @ b_class sample)")
  case (Inl e)
  with assms(2) show ?thesis by (simp add: actual_data_results_def Let_def)
next
  case (Inr buf)
  let ?copy = "snd (exact_test_offset_sort K g buf (length (a_class sample))
                      (length (b_class sample)) 0 0)"
  have "foldl (\<lambda>d x. AList.update (name x)
                  (stat_fn K (fn_name x) ?copy (length (a_class sample))
                     (length (b_class sample)) (fn_args x)) d) [] statistics \<noteq> []"
    using assms(1) by (intro foldl_update_nonempty) simp
  with Inr assms(2) show ?thesis by (auto simp: actual_data_results_def Let_def)
qed

lemma exact_test_first_test:
  assumes "statistics \<noteq> []" and "250 \<le> length samples"
    and "\<not> is_failed (snd (exact_test K g samples a b statistics eps lg))"
  shows "test_calls (fst (exact_test K g samples a b statistics eps lg)) \<noteq> []"
proof (cases "snd (actual_data_results K g \<lparr>a_class = a, b_class = b\<rparr> statistics)")
  case (Inl e)
  with assms(1,3) show ?thesis
    by (auto simp: exact_test_def Let_def case_prod_beta split: if_splits)
next
  case (Inr as)
  then have "as \<noteq> []"
    using assms(1) by (rule actual_data_results_nonempty[rotated])
  then have "map fst as \<noteq> []" by simp
  then have acc: "accumulators (initial_state as) \<noteq> []"
    using foldl_update_nonempty[of "map fst as" "[]" "\<lambda>x. x"
            "\<lambda>x. \<lparr>trials = 0, lte_actual = 0, gte_actual = 0\<rparr>"]
    by (simp add: initial_state_def)
  have i: "test_every (initial_state as) = 250" "seen (initial_state as) = 0"
    "ret (initial_state as) = []" by (simp_all add: initial_state_def)
  note L = exact_test_loop_first_test[OF i acc assms(2)]
  show ?thesis
  proof (cases "generate_in_parallel_setup (cpu_count K)")
    case S: (Inl e)
    with Inr assms(1,3) show ?thesis
      by (auto simp: exact_test_def Let_def case_prod_beta split: if_splits)
  next
    case S: (Inr bs)
    with Inr assms(1,3)
         L[of "csm K" "eps / (2 * real (length statistics) * 1.1)"
              "ln (eps / (2 * real (length statistics) * 1.1) / 10)"
              "\<lparr>a_class = a, b_class = b\<rparr>" as lg]
    show ?thesis
      by (auto simp: exact_test_def Let_def case_prod_beta test_calls_append split: if_splits)
  qed
qed

section \<open>Concrete runs\<close>

lemma example_kernels_csm: "csm example_kernels = (\<lambda>tr e s l. (True, 0))"
  by (simp add: example_kernels_def)

lemma example_loop_250:
  "exact_test_loop (\<lambda>tr e s l. (True, 0)) (1 / 22000) lie \<lparr>a_class = [1], b_class = [2]\<rparr>
       [(''mu'', Finite 0)] (None :: unit option)
       \<lparr>accumulators = [(''mu'', \<lparr>trials = 0, lte_actual = 0, gte_actual = 0\<rparr>)],
        ret = [], seen = 0, test_every = 250\<rparr>
       (replicate 250 [(''mu'', Finite 0)])
   = ([TestCall ''mu'' 250 250 250, CsmCall 250 (1 / 22000) 250 lie, CsmCall 250 (1 / 22000) 250 lie],
      Returned [(''mu'', \<lparr>actual_value = Finite 0, judgement = Some 0, m_size = 1, n_size = 1,
                          num_trials = 250\<rparr>)])"
  by code_simp

lemma example_run_250:
  "exact_test example_kernels () (replicate 250 [(''mu'', Finite 0)]) [1] [2]
       [mean ''mu'' 0 (1 / 2) 0 0] (1 / 10000) (None :: unit option)
   = ([KernelCall ''exact_test_truncated_mean_diff'', SpawnWorkers, TestCall ''mu'' 250 250 250,
       CsmCall 250 (1 / 22000) 250 (ln (1 / 220000)),
       CsmCall 250 (1 / 22000) 250 (ln (1 / 220000))],
      Returned [(''mu'', \<lparr>actual_value = Finite 0, judgement = Some 0, m_size = 1, n_size = 1,
                          num_trials = 250\<rparr>)])"
  using example_loop_250[of "ln (1 / 220000)"]
  by (simp add: exact_test_def example_kernels_def mean_def actual_data_results_def
                initial_state_def generate_in_parallel_setup_def Let_def case_prod_beta
           del: exact_test_loop.simps)

lemma example_loop_2:
  "snd (exact_test_loop (\<lambda>tr e s l. (True, 0)) (1 / 22000) lie \<lparr>a_class = [1], b_class = [2]\<rparr>
       [(''mu'', Finite 0)] (None :: unit option)
       \<lparr>accumulators = [(''mu'', \<lparr>trials = 0, lte_actual = 0, gte_actual = 0\<rparr>)],
        ret = [], seen = 0, test_every = 250\<rparr>
       [[(''mu'', Finite 0)], [(''mu'', Finite 1)]])
   = Pending \<lparr>accumulators = [(''mu'', \<lparr>trials = 2, lte_actual = 1, gte_actual = 2\<rparr>)],
              ret = [], seen = 2, test_every = 250\<rparr>"
  by code_simp

lemma example_run_2:
  "snd (exact_test example_kernels () [[(''mu'', Finite 0)], [(''mu'', Finite 1)]] [1] [2]
       [mean ''mu'' 0 (1 / 2) 0 0] (1 / 10000) (None :: unit option))
   = Pending \<lparr>accumulators = [(''mu'', \<lparr>trials = 2, lte_actual = 1, gte_actual = 2\<rparr>)],
              ret = [], seen = 2, test_every = 250\<rparr>"
  using example_loop_2[of "ln (1 / 220000)"]
  by (simp add: exact_test_def example_kernels_def mean_def actual_data_results_def
                initial_state_def generate_in_parallel_setup_def Let_def case_prod_beta
           del: exact_test_loop.simps)

lemma example_loop_1:
  "snd (exact_test_loop (\<lambda>tr e s l. (True, 0)) (1 / 22000) lie \<lparr>a_class = [1], b_class = [2]\<rparr>
       [(''mu'', Finite 0)] (None :: unit option)
       \<lparr>accumulators = [(''mu'', \<lparr>trials = 0, lte_actual = 0, gte_actual = 0\<rparr>)],
        ret = [], seen = 0, test_every = 250\<rparr>
       [[(''mu'', Finite 0)]])
   = Pending \<lparr>accumulators = [(''mu'', \<lparr>trials = 1, lte_actual = 1, gte_actual = 1\<rparr>)],
              ret = [], seen = 1, test_every = 250\<rparr>"
  by code_simp

lemma example_run_1:
  "snd (exact_test example_kernels () [[(''mu'', Finite 0)]] [1] [2] [mean ''mu'' 0 (1 / 2) 0 0]
       (1 / 10000) (None :: unit option))
   = Pending \<lparr>accumulators = [(''mu'', \<lparr>trials = 1, lte_actual = 1, gte_actual = 1\<rparr>)],
              ret = [], seen = 1, test_every = 250\<rparr>"
  using example_loop_1[of "ln (1 / 220000)"]
  by (simp add: exact_test_def example_kernels_def mean_def actual_data_results_def
                initial_state_def generate_in_parallel_setup_def Let_def case_prod_beta
           del: exact_test_loop.simps)



text \<open>Runs on values that are NaN, and a run with \<open>eps = 2\<close> on values on both sides.\<close>

lemma example_loop_nan_1:
  "snd (exact_test_loop (\<lambda>tr e s l. (True, 0)) (1 / 22000) lie \<lparr>a_class = [1], b_class = [2]\<rparr>
       [(''mu'', Finite 0)] (None :: unit option)
       \<lparr>accumulators = [(''mu'', \<lparr>trials = 0, lte_actual = 0, gte_actual = 0\<rparr>)],
        ret = [], seen = 0, test_every = 250\<rparr>
       [[(''mu'', NaN)]])
   = Pending \<lparr>accumulators = [(''mu'', \<lparr>trials = 1, lte_actual = 0, gte_actual = 0\<rparr>)],
              ret = [], seen = 1, test_every = 250\<rparr>"
  by code_simp

lemma example_run_nan_1:
  "snd (exact_test example_kernels () [[(''mu'', NaN)]] [1] [2] [mean ''mu'' 0 (1 / 2) 0 0]
       (1 / 10000) (None :: unit option))
   = Pending \<lparr>accumulators = [(''mu'', \<lparr>trials = 1, lte_actual = 0, gte_actual = 0\<rparr>)],
              ret = [], seen = 1, test_every = 250\<rparr>"
  using example_loop_nan_1[of "ln (1 / 220000)"]
  by (simp add: exact_test_def example_kernels_def mean_def actual_data_results_def
                initial_state_def generate_in_parallel_setup_def Let_def case_prod_beta
           del: exact_test_loop.simps)

lemma example_loop_nan_250:
  "exact_test_loop (\<lambda>tr e s l. (True, 0)) (1 / 22000) lie \<lparr>a_class = [1], b_class = [2]\<rparr>
       [(''mu'', Finite 0)] (None :: unit option)
       \<lparr>accumulators = [(''mu'', \<lparr>trials = 0, lte_actual = 0, gte_actual = 0\<rparr>)],
        ret = [], seen = 0, test_every = 250\<rparr>
       (replicate 250 [(''mu'', NaN)])
   = ([TestCall ''mu'' 0 0 250, CsmCall 250 (1 / 22000) 0 lie, CsmCall 250 (1 / 22000) 0 lie],
      Returned [(''mu'', \<lparr>actual_value = Finite 0, judgement = Some (- 1), m_size = 1, n_size = 1,
                          num_trials = 250\<rparr>)])"
  by code_simp

lemma example_run_nan_250:
  "exact_test example_kernels () (replicate 250 [(''mu'', NaN)]) [1] [2]
       [mean ''mu'' 0 (1 / 2) 0 0] (1 / 10000) (None :: unit option)
   = ([KernelCall ''exact_test_truncated_mean_diff'', SpawnWorkers, TestCall ''mu'' 0 0 250,
       CsmCall 250 (1 / 22000) 0 (ln (1 / 220000)),
       CsmCall 250 (1 / 22000) 0 (ln (1 / 220000))],
      Returned [(''mu'', \<lparr>actual_value = Finite 0, judgement = Some (- 1), m_size = 1, n_size = 1,
                          num_trials = 250\<rparr>)])"
  using example_loop_nan_250[of "ln (1 / 220000)"]
  by (simp add: exact_test_def example_kernels_def mean_def actual_data_results_def
                initial_state_def generate_in_parallel_setup_def Let_def case_prod_beta
           del: exact_test_loop.simps)

lemma example_loop_eps_2:
  "exact_test_loop (\<lambda>tr e s l. (True, 0)) (10 / 11) lie \<lparr>a_class = [1], b_class = [2]\<rparr>
       [(''mu'', Finite 0)] (None :: unit option)
       \<lparr>accumulators = [(''mu'', \<lparr>trials = 0, lte_actual = 0, gte_actual = 0\<rparr>)],
        ret = [], seen = 0, test_every = 250\<rparr>
       (replicate 125 [(''mu'', Finite (- 1))] @ replicate 125 [(''mu'', Finite 1)])
   = ([TestCall ''mu'' 125 125 250, CsmCall 250 (10 / 11) 125 lie, CsmCall 250 (10 / 11) 125 lie],
      Returned [(''mu'', \<lparr>actual_value = Finite 0, judgement = Some (- 1), m_size = 1, n_size = 1,
                          num_trials = 250\<rparr>)])"
  by code_simp

lemma example_run_eps_2:
  "exact_test example_kernels ()
       (replicate 125 [(''mu'', Finite (- 1))] @ replicate 125 [(''mu'', Finite 1)]) [1] [2]
       [mean ''mu'' 0 (1 / 2) 0 0] 2 (None :: unit option)
   = ([KernelCall ''exact_test_truncated_mean_diff'', SpawnWorkers, TestCall ''mu'' 125 125 250,
       CsmCall 250 (10 / 11) 125 (ln (1 / 11)),
       CsmCall 250 (10 / 11) 125 (ln (1 / 11))],
      Returned [(''mu'', \<lparr>actual_value = Finite 0, judgement = Some (- 1), m_size = 1, n_size = 1,
                          num_trials = 250\<rparr>)])"
  using example_loop_eps_2[of "ln (1 / 11)"]
  by (simp add: exact_test_def example_kernels_def mean_def actual_data_results_def
                initial_state_def generate_in_parallel_setup_def Let_def case_prod_beta
           del: exact_test_loop.simps replicate_add)

lemma example_actual_nan_free:
  "actual_nan_free example_kernels () [1] [2] [mean ''mu'' 0 (1 / 2) 0 0]"
  by (simp add: actual_nan_free_def nan_free_def actual_data_results_def example_kernels_def
                mean_def Let_def)


section \<open>Failure at once, and what is not checked\<close>





lemma concat_csm_calls_of_test_nonempty:
  "cs \<noteq> [] \<Longrightarrow> concat (map (csm_calls_of_test e l) cs) \<noteq> []"
  by (cases cs) (auto simp: csm_calls_of_test_def case_prod_beta)

lemma list_all_test_call_inv:
  "list_all (test_call_inv True) cs = list_all test_call_ok cs"
  "list_all (test_call_inv False) cs = list_all test_call_bounds cs"
proof -
  have "test_call_inv True = test_call_ok" "test_call_inv False = test_call_bounds"
    by (rule ext, simp add: test_call_inv_def)+
  then show "list_all (test_call_inv True) cs = list_all test_call_ok cs"
    "list_all (test_call_inv False) cs = list_all test_call_bounds cs" by simp_all
qed

lemma list_all_acc_inv:
  "list_all (\<lambda>p. acc_inv True (snd p)) accs = list_all (\<lambda>p. acc_ok (snd p)) accs"
  "list_all (\<lambda>p. acc_inv False (snd p)) accs = list_all (\<lambda>p. acc_bounds (snd p)) accs"
  by (simp_all add: acc_inv_def)

lemma exact_test_bounds:
  "list_all test_call_bounds (test_calls (fst (exact_test K g samples a b statistics eps lg)))
   \<and> list_all (\<lambda>p. acc_bounds (snd p))
       (outcome_accumulators (snd (exact_test K g samples a b statistics eps lg)))
   \<and> list_all (\<lambda>p. res_ok (snd p))
       (outcome_ret (snd (exact_test K g samples a b statistics eps lg)))
   \<and> snd (exact_test K g samples a b statistics eps lg) \<noteq> Failed ZeroDivisionError"
proof -
  have "list_all (test_call_inv False)
          (test_calls (fst (exact_test K g samples a b statistics eps lg)))
   \<and> (case snd (exact_test K g samples a b statistics eps lg) of
        Failed e \<Rightarrow> e \<noteq> ZeroDivisionError
      | Returned out \<Rightarrow> list_all (\<lambda>p. res_ok (snd p)) out
      | Pending st' \<Rightarrow> state_inv False st')"
    by (intro exact_test_inv) simp
  then show ?thesis
    by (cases "snd (exact_test K g samples a b statistics eps lg)")
       (auto simp: state_inv_def list_all_test_call_inv list_all_acc_inv)
qed

lemma exact_test_nan_free:
  assumes "actual_nan_free K g a b statistics" and "list_all nan_free samples"
  shows "list_all test_call_ok (test_calls (fst (exact_test K g samples a b statistics eps lg)))
   \<and> list_all (\<lambda>p. acc_ok (snd p))
       (outcome_accumulators (snd (exact_test K g samples a b statistics eps lg)))"
proof -
  have "list_all (test_call_inv True)
          (test_calls (fst (exact_test K g samples a b statistics eps lg)))
   \<and> (case snd (exact_test K g samples a b statistics eps lg) of
        Failed e \<Rightarrow> e \<noteq> ZeroDivisionError
      | Returned out \<Rightarrow> list_all (\<lambda>p. res_ok (snd p)) out
      | Pending st' \<Rightarrow> state_inv True st')"
    using assms by (intro exact_test_inv) simp
  then show ?thesis
    by (cases "snd (exact_test K g samples a b statistics eps lg)")
       (auto simp: state_inv_def list_all_test_call_inv list_all_acc_inv)
qed

section \<open>Judgements, calls of \<^verbatim>\<open>csm\<close>, accumulators and invalid inputs\<close>

text \<open>
  Claim C1.  The judgement written by \<^verbatim>\<open>_significance_test\<close> follows the rule of the
  specification (\<open>spec_judgement\<close>): \<open>-1\<close> for the low tail, else \<open>+1\<close> for the high tail,
  else \<open>0\<close> when both sides are significant, else nothing is written.  In every run of
  \<^verbatim>\<open>exact_test\<close> the test is called with \<open>trials > 0\<close> only, no division by zero
  happens, and every entry of the result dictionary has a judgement in \<open>{-1, 0, +1}\<close> and
  \<open>num_trials > 0\<close>.
\<close>

theorem significance_test_judgements:
  "(tr \<noteq> 0 \<longrightarrow>
      snd (significance_test c r eps' lie nm mc ad actual lte gte tr lg) =
        Inr (case spec_judgement (fst (c tr eps' lte lie)) (fst (c tr eps' gte lie)) lte gte tr eps' of
               None \<Rightarrow> r
             | Some j \<Rightarrow>
                 AList.update nm
                   \<lparr>actual_value = actual, judgement = Some j, m_size = length (a_class ad),
                    n_size = length (b_class ad), num_trials = tr\<rparr> r))
   \<and> list_all test_call_bounds (test_calls (fst (exact_test K g samples a b statistics eps lg')))
   \<and> list_all (\<lambda>p. res_ok (snd p)) (outcome_ret (snd (exact_test K g samples a b statistics eps lg')))
   \<and> snd (exact_test K g samples a b statistics eps lg') \<noteq> Failed ZeroDivisionError"
  using exact_test_bounds[of K g samples a b statistics eps lg'] significance_test_rule[of tr]
  by blast

theorem significance_test_judgements_witness:
  "snd (significance_test (csm example_kernels) [] (1 / 22000) 0 ''mu'' (Finite 0)
          \<lparr>a_class = [1], b_class = [2]\<rparr> (Finite 0) 250 250 250 (None :: unit option))
     = Inr [(''mu'', \<lparr>actual_value = Finite 0, judgement = Some 0, m_size = 1, n_size = 1,
                      num_trials = 250\<rparr>)]
   \<and> snd (significance_test (csm example_kernels) [] (1 / 22000) 0 ''mu'' (Finite 0)
          \<lparr>a_class = [1], b_class = [2]\<rparr> (Finite 0) 0 250 250 (None :: unit option))
     = Inr [(''mu'', \<lparr>actual_value = Finite 0, judgement = Some (- 1), m_size = 1, n_size = 1,
                      num_trials = 250\<rparr>)]
   \<and> test_calls (fst (exact_test example_kernels () (replicate 250 [(''mu'', Finite 0)]) [1] [2]
                         [mean ''mu'' 0 (1 / 2) 0 0] (1 / 10000) (None :: unit option)))
       = [(''mu'', 250, 250, 250)]
   \<and> list_all test_call_bounds
       (test_calls (fst (exact_test example_kernels () (replicate 250 [(''mu'', Finite 0)]) [1] [2]
                          [mean ''mu'' 0 (1 / 2) 0 0] (1 / 10000) (None :: unit option))))
   \<and> outcome_ret (snd (exact_test example_kernels () (replicate 250 [(''mu'', Finite 0)]) [1] [2]
                          [mean ''mu'' 0 (1 / 2) 0 0] (1 / 10000) (None :: unit option)))
       = [(''mu'', \<lparr>actual_value = Finite 0, judgement = Some 0, m_size = 1, n_size = 1,
                    num_trials = 250\<rparr>)]
   \<and> list_all (\<lambda>p. res_ok (snd p))
       (outcome_ret (snd (exact_test example_kernels () (replicate 250 [(''mu'', Finite 0)]) [1] [2]
                            [mean ''mu'' 0 (1 / 2) 0 0] (1 / 10000) (None :: unit option))))"
  using significance_test_judgements[of 250 "csm example_kernels" "[]" "1 / 22000" 0 "''mu''"
          "Finite 0" "\<lparr>a_class = [1], b_class = [2]\<rparr>" "Finite 0" 250 250 "None :: unit option"
          example_kernels "()" "replicate 250 [(''mu'', Finite 0)]" "[1]" "[2]"
          "[mean ''mu'' 0 (1 / 2) 0 0]" "1 / 10000" "None :: unit option"]
        significance_test_judgements[of 250 "csm example_kernels" "[]" "1 / 22000" 0 "''mu''"
          "Finite 0" "\<lparr>a_class = [1], b_class = [2]\<rparr>" "Finite 0" 0 250 "None :: unit option"
          example_kernels "()" "replicate 250 [(''mu'', Finite 0)]" "[1]" "[2]"
          "[mean ''mu'' 0 (1 / 2) 0 0]" "1 / 10000" "None :: unit option"]
  by (simp add: example_run_250 spec_judgement_def example_kernels_csm)

text \<open>
  Claim C2.  \<^verbatim>\<open>exact_test\<close> replaces \<open>eps\<close> by \<open>eps / (2 * |statistics| * 1.1)\<close> and takes
  \<open>log_inner_eps = ln (eps / 10)\<close> of the corrected \<open>eps\<close>, whatever the samples are, and
  these are the values that every call of \<^verbatim>\<open>csm\<close> gets: the calls of \<^verbatim>\<open>csm\<close> in a
  run are exactly two for each call of \<^verbatim>\<open>_significance_test\<close>, one with \<open>lte_actual\<close>
  and one with \<open>gte_actual\<close>, both with the corrected \<open>eps\<close> and this
  \<open>log_inner_eps\<close>.  A run on at least one statistic that has read 250 samples and has not
  failed has called \<^verbatim>\<open>csm\<close>.
\<close>

theorem exact_test_csm_arguments:
  "csm_calls (fst (exact_test K g samples a b statistics eps lg))
     = concat (map (csm_calls_of_test (eps / (2 * real (length statistics) * 1.1))
                      (ln (eps / (2 * real (length statistics) * 1.1) / 10)))
                 (test_calls (fst (exact_test K g samples a b statistics eps lg))))
   \<and> list_all (csm_args_are (eps / (2 * real (length statistics) * 1.1))
                 (ln (eps / (2 * real (length statistics) * 1.1) / 10)))
       (csm_calls (fst (exact_test K g samples a b statistics eps lg)))
   \<and> (statistics \<noteq> [] \<and> 250 \<le> length samples
        \<and> \<not> is_failed (snd (exact_test K g samples a b statistics eps lg)) \<longrightarrow>
        csm_calls (fst (exact_test K g samples a b statistics eps lg)) \<noteq> [])"
proof -
  have "csm_calls (fst (exact_test K g samples a b statistics eps lg)) \<noteq> []"
    if "statistics \<noteq> []" "250 \<le> length samples"
       "\<not> is_failed (snd (exact_test K g samples a b statistics eps lg))"
  proof -
    from exact_test_first_test[OF that]
    have "test_calls (fst (exact_test K g samples a b statistics eps lg)) \<noteq> []" .
    then show ?thesis
      unfolding exact_test_csm_calls_eq[of K g samples a b statistics eps lg]
      by (rule concat_csm_calls_of_test_nonempty)
  qed
  with exact_test_csm_calls_eq[of K g samples a b statistics eps lg]
       exact_test_csm_calls[of eps statistics K g samples a b lg]
  show ?thesis by blast
qed

theorem exact_test_csm_arguments_witness:
  "[mean ''mu'' 0 (1 / 2) 0 0] \<noteq> []
   \<and> 250 \<le> length (replicate 250 [(''mu'', Finite 0)])
   \<and> \<not> is_failed (snd (exact_test example_kernels () (replicate 250 [(''mu'', Finite 0)]) [1] [2]
                         [mean ''mu'' 0 (1 / 2) 0 0] (1 / 10000) (None :: unit option)))
   \<and> test_calls (fst (exact_test example_kernels () (replicate 250 [(''mu'', Finite 0)]) [1] [2]
                         [mean ''mu'' 0 (1 / 2) 0 0] (1 / 10000) (None :: unit option)))
       = [(''mu'', 250, 250, 250)]
   \<and> csm_calls (fst (exact_test example_kernels () (replicate 250 [(''mu'', Finite 0)]) [1] [2]
                        [mean ''mu'' 0 (1 / 2) 0 0] (1 / 10000) (None :: unit option)))
       = [(250, 1 / 22000, 250, ln (1 / 220000)), (250, 1 / 22000, 250, ln (1 / 220000))]
   \<and> (1 / 10000) / (2 * real (length [mean ''mu'' 0 (1 / 2) 0 0]) * 1.1) = (1 / 22000 :: real)
   \<and> csm_calls (fst (exact_test example_kernels () (replicate 250 [(''mu'', Finite 0)]) [1] [2]
                        [mean ''mu'' 0 (1 / 2) 0 0] (1 / 10000) (None :: unit option))) \<noteq> []"
  using exact_test_csm_arguments[of example_kernels "()" "replicate 250 [(''mu'', Finite 0)]"
          "[1]" "[2]" "[mean ''mu'' 0 (1 / 2) 0 0]" "1 / 10000" "None :: unit option"]
  by (simp add: example_run_250 csm_calls_of_test_def)

text \<open>
  Claim C3, as it holds.  One resampled value increments \<open>lte_actual\<close> when it is at most
  the actual value, \<open>gte_actual\<close> when it is at least the actual value (both on equality,
  neither when one of the two is NaN), and always \<open>trials\<close>; no field decreases.  In every
  run of \<^verbatim>\<open>exact_test\<close>, the accumulators passed to the significance test and the
  accumulators between two samples satisfy \<open>0 \<le> lte_actual \<le> trials\<close> and
  \<open>0 \<le> gte_actual \<le> trials\<close>; they satisfy \<open>trials \<le> lte_actual + gte_actual\<close> when
  neither the values of the statistics on the actual data nor the resampled values contain
  a NaN; and the accumulators of a run that goes on are field by field at least those
  after any earlier sample.
\<close>

theorem accumulator_invariant:
  "accumulate stat actual cur =
     cur\<lparr>lte_actual := lte_actual cur + (if float_le stat actual then 1 else 0),
         gte_actual := gte_actual cur + (if float_ge stat actual then 1 else 0),
         trials := trials cur + 1\<rparr>
   \<and> (stat = actual \<and> stat \<noteq> NaN \<longrightarrow>
        lte_actual (accumulate stat actual cur) = lte_actual cur + 1
        \<and> gte_actual (accumulate stat actual cur) = gte_actual cur + 1)
   \<and> (stat = NaN \<or> actual = NaN \<longrightarrow>
        lte_actual (accumulate stat actual cur) = lte_actual cur
        \<and> gte_actual (accumulate stat actual cur) = gte_actual cur)
   \<and> acc_le cur (accumulate stat actual cur)
   \<and> list_all test_call_bounds (test_calls (fst (exact_test K g samples a b statistics eps lg)))
   \<and> list_all (\<lambda>p. acc_bounds (snd p))
       (outcome_accumulators (snd (exact_test K g samples a b statistics eps lg)))
   \<and> (actual_nan_free K g a b statistics \<and> list_all nan_free samples \<longrightarrow>
        list_all test_call_ok (test_calls (fst (exact_test K g samples a b statistics eps lg)))
        \<and> list_all (\<lambda>p. acc_ok (snd p))
            (outcome_accumulators (snd (exact_test K g samples a b statistics eps lg))))
   \<and> (is_pending (snd (exact_test K g (samples @ later) a b statistics eps lg)) \<longrightarrow>
        accumulators_le
          (outcome_accumulators (snd (exact_test K g samples a b statistics eps lg)))
          (outcome_accumulators (snd (exact_test K g (samples @ later) a b statistics eps lg))))"
  using exact_test_bounds[of K g samples a b statistics eps lg]
        exact_test_nan_free[of K g a b statistics samples eps lg]
        exact_test_monotone[of K g samples later a b statistics eps lg]
        accumulate_eq[of stat actual cur] accumulate_le[of cur stat actual]
        accumulate_equal[of stat actual cur] accumulate_nan[of stat actual cur]
  by blast

theorem accumulator_invariant_witness:
  "accumulate (Finite 0) (Finite 0) \<lparr>trials = 0, lte_actual = 0, gte_actual = 0\<rparr>
     = \<lparr>trials = 1, lte_actual = 1, gte_actual = 1\<rparr>
   \<and> accumulate NaN (Finite 0) \<lparr>trials = 0, lte_actual = 0, gte_actual = 0\<rparr>
     = \<lparr>trials = 1, lte_actual = 0, gte_actual = 0\<rparr>
   \<and> actual_nan_free example_kernels () [1] [2] [mean ''mu'' 0 (1 / 2) 0 0]
   \<and> list_all nan_free [[(''mu'', Finite 0)]]
   \<and> is_pending (snd (exact_test example_kernels () ([[(''mu'', Finite 0)]] @ [[(''mu'', Finite 1)]])
                      [1] [2] [mean ''mu'' 0 (1 / 2) 0 0] (1 / 10000) (None :: unit option)))
   \<and> outcome_accumulators (snd (exact_test example_kernels () [[(''mu'', Finite 0)]] [1] [2]
                      [mean ''mu'' 0 (1 / 2) 0 0] (1 / 10000) (None :: unit option)))
       = [(''mu'', \<lparr>trials = 1, lte_actual = 1, gte_actual = 1\<rparr>)]
   \<and> outcome_accumulators (snd (exact_test example_kernels ()
                      ([[(''mu'', Finite 0)]] @ [[(''mu'', Finite 1)]]) [1] [2]
                      [mean ''mu'' 0 (1 / 2) 0 0] (1 / 10000) (None :: unit option)))
       = [(''mu'', \<lparr>trials = 2, lte_actual = 1, gte_actual = 2\<rparr>)]
   \<and> accumulators_le
       (outcome_accumulators (snd (exact_test example_kernels () [[(''mu'', Finite 0)]] [1] [2]
                      [mean ''mu'' 0 (1 / 2) 0 0] (1 / 10000) (None :: unit option))))
       (outcome_accumulators (snd (exact_test example_kernels ()
                      ([[(''mu'', Finite 0)]] @ [[(''mu'', Finite 1)]]) [1] [2]
                      [mean ''mu'' 0 (1 / 2) 0 0] (1 / 10000) (None :: unit option))))
   \<and> list_all (\<lambda>p. acc_ok (snd p))
       (outcome_accumulators (snd (exact_test example_kernels () [[(''mu'', Finite 0)]] [1] [2]
                      [mean ''mu'' 0 (1 / 2) 0 0] (1 / 10000) (None :: unit option))))"
  using accumulator_invariant[of "Finite 0" "Finite 0" "\<lparr>trials = 0, lte_actual = 0, gte_actual = 0\<rparr>"
          example_kernels "()" "[[(''mu'', Finite 0)]]" "[1]" "[2]" "[mean ''mu'' 0 (1 / 2) 0 0]"
          "1 / 10000" "None :: unit option" "[[(''mu'', Finite 1)]]"]
        accumulator_invariant[of NaN "Finite 0" "\<lparr>trials = 0, lte_actual = 0, gte_actual = 0\<rparr>"
          example_kernels "()" "[[(''mu'', Finite 0)]]" "[1]" "[2]" "[mean ''mu'' 0 (1 / 2) 0 0]"
          "1 / 10000" "None :: unit option" "[[(''mu'', Finite 1)]]"]
  by (simp add: example_run_1 example_run_2 example_actual_nan_free nan_free_def float_ge_def
           del: exact_test_loop.simps)

text \<open>
  Claim C3, as it is stated, fails when a resampled value is NaN: the value increments
  \<open>trials\<close> only.  After one such sample the accumulator is \<open>(trials, lte_actual,
  gte_actual) = (1, 0, 0)\<close>, and after 250 of them the significance test is called with
  \<open>lte_actual = gte_actual = 0\<close> and \<open>trials = 250\<close>.
\<close>

theorem accumulator_sum_fails_on_nan:
  "accumulate NaN (Finite 0) \<lparr>trials = 0, lte_actual = 0, gte_actual = 0\<rparr>
     = \<lparr>trials = 1, lte_actual = 0, gte_actual = 0\<rparr>
   \<and> outcome_accumulators (snd (exact_test example_kernels () [[(''mu'', NaN)]] [1] [2]
                      [mean ''mu'' 0 (1 / 2) 0 0] (1 / 10000) (None :: unit option)))
       = [(''mu'', \<lparr>trials = 1, lte_actual = 0, gte_actual = 0\<rparr>)]
   \<and> \<not> acc_ok \<lparr>trials = 1, lte_actual = 0, gte_actual = 0\<rparr>
   \<and> test_calls (fst (exact_test example_kernels () (replicate 250 [(''mu'', NaN)]) [1] [2]
                         [mean ''mu'' 0 (1 / 2) 0 0] (1 / 10000) (None :: unit option)))
       = [(''mu'', 0, 0, 250)]
   \<and> \<not> test_call_ok (''mu'', 0, 0, 250)"
  by (simp add: example_run_nan_1 example_run_nan_250 accumulate_def float_ge_def acc_ok_def
                test_call_ok_def Let_def)

text \<open>
  Claim C9, as it holds.  When \<^verbatim>\<open>_significance_test\<close> is called with
  \<open>0 < trials \<le> lte_actual + gte_actual\<close> and \<open>eps < 1/2\<close>, the two tail conditions
  \<open>lte_actual / trials < eps\<close> and \<open>gte_actual / trials < eps\<close> do not hold together, and
  the test that examines the high side first writes the same result.  In a run of
  \<^verbatim>\<open>exact_test\<close> every call of the test has such counts and such an \<open>eps\<close> when the
  caller's \<open>eps\<close> is at most \<open>1\<close> and neither the values of the statistics on the actual
  data nor the resampled values contain a NaN.
\<close>

theorem tail_judgements_exclusive:
  "(0 < tr \<and> tr \<le> lte + gte \<and> eps' < 1 / 2 \<longrightarrow>
      \<not> (real_of_int lte / real_of_int tr < eps' \<and> real_of_int gte / real_of_int tr < eps')
      \<and> snd (significance_test c r eps' lie nm mc ad actual lte gte tr lg)
        = snd (significance_test_gt_first c r eps' lie nm mc ad actual lte gte tr lg))
   \<and> (eps \<le> 1 \<and> actual_nan_free K g a b statistics \<and> list_all nan_free samples \<longrightarrow>
        list_all test_call_ok (test_calls (fst (exact_test K g samples a b statistics eps lg')))
        \<and> list_all csm_eps_small
            (csm_calls (fst (exact_test K g samples a b statistics eps lg'))))"
  using tails_exclusive[of tr lte gte eps']
        significance_test_gt_first_same[of tr lte gte eps' c r lie nm mc ad actual lg]
        exact_test_nan_free[of K g a b statistics samples eps lg']
        exact_test_csm_eps_small[of eps K g samples a b statistics lg']
  by blast

theorem tail_judgements_exclusive_witness:
  "(0 :: int) < 250 \<and> (250 :: int) \<le> 0 + 250 \<and> (1 / 22000 :: real) < 1 / 2
   \<and> \<not> (real_of_int 0 / real_of_int 250 < (1 / 22000 :: real)
         \<and> real_of_int 250 / real_of_int 250 < (1 / 22000 :: real))
   \<and> snd (significance_test (csm example_kernels) [] (1 / 22000) 0 ''mu'' (Finite 0)
            \<lparr>a_class = [1], b_class = [2]\<rparr> (Finite 0) 0 250 250 (None :: unit option))
     = snd (significance_test_gt_first (csm example_kernels) [] (1 / 22000) 0 ''mu'' (Finite 0)
            \<lparr>a_class = [1], b_class = [2]\<rparr> (Finite 0) 0 250 250 (None :: unit option))
   \<and> (1 / 10000 :: real) \<le> 1
   \<and> actual_nan_free example_kernels () [1] [2] [mean ''mu'' 0 (1 / 2) 0 0]
   \<and> list_all nan_free (replicate 250 [(''mu'', Finite 0)])
   \<and> test_calls (fst (exact_test example_kernels () (replicate 250 [(''mu'', Finite 0)]) [1] [2]
                        [mean ''mu'' 0 (1 / 2) 0 0] (1 / 10000) (None :: unit option)))
       = [(''mu'', 250, 250, 250)]
   \<and> list_all test_call_ok
       (test_calls (fst (exact_test example_kernels () (replicate 250 [(''mu'', Finite 0)]) [1] [2]
                          [mean ''mu'' 0 (1 / 2) 0 0] (1 / 10000) (None :: unit option))))
   \<and> csm_calls (fst (exact_test example_kernels () (replicate 250 [(''mu'', Finite 0)]) [1] [2]
                        [mean ''mu'' 0 (1 / 2) 0 0] (1 / 10000) (None :: unit option)))
       = [(250, 1 / 22000, 250, ln (1 / 220000)), (250, 1 / 22000, 250, ln (1 / 220000))]
   \<and> list_all csm_eps_small
       (csm_calls (fst (exact_test example_kernels () (replicate 250 [(''mu'', Finite 0)]) [1] [2]
                          [mean ''mu'' 0 (1 / 2) 0 0] (1 / 10000) (None :: unit option))))"
  using tail_judgements_exclusive[of 250 0 250 "1 / 22000" "csm example_kernels" "[]" 0 "''mu''"
          "Finite 0" "\<lparr>a_class = [1], b_class = [2]\<rparr>" "Finite 0" "None :: unit option"
          "1 / 10000" example_kernels "()" "[1]" "[2]" "[mean ''mu'' 0 (1 / 2) 0 0]"
          "replicate 250 [(''mu'', Finite 0)]" "None :: unit option"]
  by (simp add: example_run_250 example_actual_nan_free nan_free_def list_all_iff)

text \<open>
  Claim C9, as it is stated, fails: \<^verbatim>\<open>exact_test\<close> does not keep the corrected \<open>eps\<close>
  below \<open>1/2\<close>, nor the tail counts above the trials.  Called with \<open>eps = 2\<close> on one
  statistic it corrects \<open>eps\<close> to \<open>10/11\<close>, and after 125 values below and 125 values above
  the actual value it calls the test with \<open>(lte_actual, gte_actual, trials) =
  (125, 125, 250)\<close>: both tail conditions hold, the test writes \<open>-1\<close>, and the test that
  examines the high side first writes \<open>+1\<close>.  Called with \<open>eps = 1/10000\<close> on 250 values
  that are NaN it calls the test with \<open>(0, 0, 250)\<close>, with the same two results.
\<close>

theorem tail_judgements_overlap:
  "test_calls (fst (exact_test example_kernels ()
                      (replicate 125 [(''mu'', Finite (- 1))] @ replicate 125 [(''mu'', Finite 1)])
                      [1] [2] [mean ''mu'' 0 (1 / 2) 0 0] 2 (None :: unit option)))
     = [(''mu'', 125, 125, 250)]
   \<and> csm_calls (fst (exact_test example_kernels ()
                      (replicate 125 [(''mu'', Finite (- 1))] @ replicate 125 [(''mu'', Finite 1)])
                      [1] [2] [mean ''mu'' 0 (1 / 2) 0 0] 2 (None :: unit option)))
     = [(250, 10 / 11, 125, ln (1 / 11)), (250, 10 / 11, 125, ln (1 / 11))]
   \<and> (0 :: int) < 250 \<and> (250 :: int) \<le> 125 + 125
   \<and> real_of_int 125 / real_of_int 250 < (10 / 11 :: real)
   \<and> snd (significance_test (csm example_kernels) [] (10 / 11) (ln (1 / 11)) ''mu'' (Finite 1)
            \<lparr>a_class = [1], b_class = [2]\<rparr> (Finite 0) 125 125 250 (None :: unit option))
     = Inr [(''mu'', \<lparr>actual_value = Finite 0, judgement = Some (- 1), m_size = 1, n_size = 1,
                      num_trials = 250\<rparr>)]
   \<and> snd (significance_test_gt_first (csm example_kernels) [] (10 / 11) (ln (1 / 11)) ''mu''
            (Finite 1) \<lparr>a_class = [1], b_class = [2]\<rparr> (Finite 0) 125 125 250
            (None :: unit option))
     = Inr [(''mu'', \<lparr>actual_value = Finite 0, judgement = Some 1, m_size = 1, n_size = 1,
                      num_trials = 250\<rparr>)]
   \<and> test_calls (fst (exact_test example_kernels () (replicate 250 [(''mu'', NaN)]) [1] [2]
                         [mean ''mu'' 0 (1 / 2) 0 0] (1 / 10000) (None :: unit option)))
     = [(''mu'', 0, 0, 250)]
   \<and> snd (significance_test (csm example_kernels) [] (1 / 22000) (ln (1 / 220000)) ''mu'' NaN
            \<lparr>a_class = [1], b_class = [2]\<rparr> (Finite 0) 0 0 250 (None :: unit option))
     = Inr [(''mu'', \<lparr>actual_value = Finite 0, judgement = Some (- 1), m_size = 1, n_size = 1,
                      num_trials = 250\<rparr>)]
   \<and> snd (significance_test_gt_first (csm example_kernels) [] (1 / 22000) (ln (1 / 220000)) ''mu''
            NaN \<lparr>a_class = [1], b_class = [2]\<rparr> (Finite 0) 0 0 250 (None :: unit option))
     = Inr [(''mu'', \<lparr>actual_value = Finite 0, judgement = Some 1, m_size = 1, n_size = 1,
                      num_trials = 250\<rparr>)]"
  by (simp add: example_run_eps_2 example_run_nan_250 example_kernels_csm significance_test_def
                significance_test_gt_first_def Let_def
           del: replicate_add)




end
